theory Spec2Isabelle
  imports Main "HOL-Library.Word"
begin

section \<open>The compilation state of src/wasm/module-compiler.cc\<close>

text \<open>
  A shallow embedding of \<^verbatim>\<open>CompilationStateImpl\<close> and \<^verbatim>\<open>CompilationUnitBuilder\<close>.
  Each member function becomes a function from the state to the new state. A \<^verbatim>\<open>DCHECK\<close>
  that does not hold, in a build where DCHECK is on, is the result \<open>Inl DCheckFailure\<close>;
  in a build where it is off the check is skipped, as the macro compiles to nothing.
  \<^verbatim>\<open>size_t\<close> is a 64-bit word and \<^verbatim>\<open>uint32_t\<close> a 32-bit word, so that \<^verbatim>\<open>--x\<close> at zero
  wraps around as it does in the program.
\<close>

subsection \<open>Data\<close>

type_synonym size_t = "64 word"
type_synonym uint32_t = "32 word"

text \<open>\<^verbatim>\<open>enum class CompileMode : uint8_t { kRegular, kTiering }\<close> (line 56).\<close>

datatype CompileMode = kRegular | kTiering

text \<open>
  Modelled from the spec: \<^verbatim>\<open>ExecutionTier\<close> is declared in a header outside this file; the
  spec gives it the two values Baseline and Optimized, the two the file names.
\<close>

datatype ExecutionTier = kBaseline | kOptimized

text \<open>
  Modelled from the spec: \<^verbatim>\<open>CompilationEvent\<close> and its marker \<^verbatim>\<open>kFirstFinalEvent\<close> are
  declared in a header outside this file. The spec lists the three events and says that the
  last two are final; \<open>is_final_event e\<close> is the test \<^verbatim>\<open>event >= kFirstFinalEvent\<close> of
  \<^verbatim>\<open>NotifyOnEvent\<close>.
\<close>

datatype CompilationEvent =
  kFinishedBaselineCompilation | kFinishedTopTierCompilation | kFailedCompilation

fun is_final_event :: "CompilationEvent \<Rightarrow> bool" where
  "is_final_event kFinishedBaselineCompilation = False"
| "is_final_event kFinishedTopTierCompilation = True"
| "is_final_event kFailedCompilation = True"

text \<open>
  \<^verbatim>\<open>ResultBase\<close> / \<^verbatim>\<open>VoidResult\<close> are declared outside this file. The file reads three things
  of a result: \<^verbatim>\<open>failed()\<close>, \<^verbatim>\<open>error_offset()\<close> and \<^verbatim>\<open>error_msg()\<close>.
\<close>

record ResultBase =
  result_failed :: bool
  error_offset :: uint32_t
  error_msg :: string

definition VoidResult_Error :: "uint32_t \<Rightarrow> string \<Rightarrow> ResultBase" where
  "VoidResult_Error off msg = \<lparr>result_failed = True, error_offset = off, error_msg = msg\<rparr>"

definition VoidResult_ErrorFrom :: "ResultBase \<Rightarrow> ResultBase" where
  "VoidResult_ErrorFrom r = r"

text \<open>\<^verbatim>\<open>struct CompilationError { uint32_t const func_index; VoidResult const result; }\<close>.\<close>

record CompilationError =
  func_index :: uint32_t
  result :: ResultBase

definition new_CompilationError :: "uint32_t \<Rightarrow> ResultBase \<Rightarrow> CompilationError" where
  "new_CompilationError i compile_result =
     \<lparr>func_index = i, result = VoidResult_ErrorFrom compile_result\<rparr>"

text \<open>A compilation unit: the function it compiles and the tier it was created for.\<close>

record WasmCompilationUnit =
  unit_func_index :: uint32_t
  unit_tier :: ExecutionTier

text \<open>A callback is a \<^verbatim>\<open>std::function\<close> of the embedder; the model keeps its identity only.\<close>

type_synonym callback_t = nat

text \<open>
  The tasks the state creates: \<^verbatim>\<open>FinishCompileTask\<close>, \<^verbatim>\<open>BackgroundCompileTask\<close>,
  \<^verbatim>\<open>FreeCallbacksTask\<close> (which owns the callbacks moved into it) and the cancelable lambda
  of \<^verbatim>\<open>SetError\<close> that reports the failure.
\<close>

datatype Task =
  FinishCompileTask
| BackgroundCompileTask
| FreeCallbacksTask "callback_t list"
| NotifyFailedTask

datatype failure = DCheckFailure | NullDereference | UndefinedBehaviour

text \<open>
  The fields of \<^verbatim>\<open>CompilationStateImpl\<close> (lines 229 to 285, without the trailing
  underscore of their names, which Isabelle does not accept) that the operations below read
  or write. The first three stand for what the class reaches through globals and through
  \<^verbatim>\<open>native_module_\<close>: whether DCHECK is compiled in, the flag
  \<^verbatim>\<open>FLAG_wasm_num_compilation_tasks\<close>, and the name the module records for a function
  (\<^verbatim>\<open>LookupFunctionName\<close> followed by \<^verbatim>\<open>GetNameOrNull\<close>; \<open>None\<close> when the reference is
  not set). The last three are what the class hands to the platform: the tasks posted to
  \<^verbatim>\<open>foreground_task_runner_\<close> (oldest first), the tasks given to \<^verbatim>\<open>CallOnWorkerThread\<close>,
  and the calls made to callbacks, one entry for each call of \<^verbatim>\<open>NotifyOnEvent\<close>: the event,
  the error result passed along, and the callbacks that were called.
\<close>

record CompilationStateImpl =
  dcheck_is_on :: bool
  FLAG_wasm_num_compilation_tasks :: int
  function_name :: "uint32_t \<Rightarrow> string option"
  compile_mode :: CompileMode
  compile_error :: "CompilationError option"
  baseline_compilation_units :: "WasmCompilationUnit list"
  tiering_compilation_units :: "WasmCompilationUnit list"
  finisher_is_running :: bool
  num_background_tasks :: size_t
  baseline_finish_units :: "WasmCompilationUnit list"
  tiering_finish_units :: "WasmCompilationUnit list"
  callbacks :: "callback_t list"
  max_background_tasks :: size_t
  outstanding_baseline_units :: size_t
  outstanding_tiering_units :: size_t
  foreground_tasks :: "Task list"
  worker_tasks :: "Task list"
  notified :: "(CompilationEvent \<times> ResultBase option \<times> callback_t list) list"

subsection \<open>Inline members (lines 109 to 145, 222 to 225)\<close>

definition failed :: "CompilationStateImpl \<Rightarrow> bool" where
  "failed s = (compile_error s \<noteq> None)"

definition baseline_compilation_finished :: "CompilationStateImpl \<Rightarrow> bool" where
  "baseline_compilation_finished s =
     (outstanding_baseline_units s = 0 \<or>
      (compile_mode s = kTiering \<and> outstanding_tiering_units s = 0))"

definition has_outstanding_units :: "CompilationStateImpl \<Rightarrow> bool" where
  "has_outstanding_units s =
     (0 < outstanding_tiering_units s \<or> 0 < outstanding_baseline_units s)"

text \<open>A DCHECK on condition \<open>c\<close> stops the program when DCHECK is on and \<open>c\<close> is false.\<close>

definition dcheck_fails :: "CompilationStateImpl \<Rightarrow> bool \<Rightarrow> bool" where
  "dcheck_fails s c = (dcheck_is_on s \<and> \<not> c)"

text \<open>
  \<^verbatim>\<open>error_msg << error->func_index\<close> prints the index in decimal.
\<close>

fun string_of_nat :: "nat \<Rightarrow> string" where
  "string_of_nat n =
     (if n < 10 then [char_of (48 + n)]
      else string_of_nat (n div 10) @ [char_of (48 + n mod 10)])"

declare string_of_nat.simps [simp del]

text \<open>
  \<^verbatim>\<open>GetCompileError\<close> (lines 129 to 145). The error pointer is loaded and dereferenced; when
  it is null the DCHECK stops a build with DCHECK on, and the dereference is a null
  dereference otherwise.
\<close>

definition GetCompileError :: "CompilationStateImpl \<Rightarrow> failure + ResultBase" where
  "GetCompileError s =
     (case compile_error s of
        None \<Rightarrow> Inl (if dcheck_is_on s then DCheckFailure else NullDereference)
      | Some error \<Rightarrow>
          Inr (VoidResult_Error (error_offset (result error))
                (''Compiling wasm function '' @ [CHR 0x22] @
                 (case function_name s (func_index error) of
                    Some name \<Rightarrow> name
                  | None \<Rightarrow>
                      ''wasm-function['' @ string_of_nat (unat (func_index error)) @ '']'') @
                 [CHR 0x22] @ '' failed: '' @ error_msg (result error))))"

text \<open>
  \<^verbatim>\<open>finish_units()\<close> returns a reference to one of the two vectors; the model returns which.
\<close>

definition finish_units_is_tiering :: "CompilationStateImpl \<Rightarrow> bool" where
  "finish_units_is_tiering s = baseline_compilation_finished s"

definition finish_units :: "CompilationStateImpl \<Rightarrow> WasmCompilationUnit list" where
  "finish_units s =
     (if finish_units_is_tiering s then tiering_finish_units s else baseline_finish_units s)"

subsection \<open>Posting tasks and notifying callbacks\<close>

definition PostTask :: "Task \<Rightarrow> CompilationStateImpl \<Rightarrow> CompilationStateImpl" where
  "PostTask t s = s\<lparr>foreground_tasks := foreground_tasks s @ [t]\<rparr>"

definition CallOnWorkerThread :: "Task \<Rightarrow> CompilationStateImpl \<Rightarrow> CompilationStateImpl" where
  "CallOnWorkerThread t s = s\<lparr>worker_tasks := worker_tasks s @ [t]\<rparr>"

text \<open>
  \<^verbatim>\<open>NotifyOnEvent\<close> (lines 3252 to 3260): every callback is called, then a final event clears
  the callbacks.
\<close>

definition NotifyOnEvent ::
  "CompilationEvent \<Rightarrow> ResultBase option \<Rightarrow> CompilationStateImpl \<Rightarrow> CompilationStateImpl" where
  "NotifyOnEvent event error_result s =
     (let s1 = s\<lparr>notified := notified s @ [(event, error_result, callbacks s)]\<rparr>
      in if is_final_event event then s1\<lparr>callbacks := []\<rparr> else s1)"

subsection \<open>Member functions (lines 2996 to 3260)\<close>

text \<open>The constructor; the two flags, the origin and the platform's thread count are read there.\<close>

definition new_CompilationStateImpl ::
  "bool \<Rightarrow> (uint32_t \<Rightarrow> string option) \<Rightarrow> bool \<Rightarrow> bool \<Rightarrow> int \<Rightarrow> int \<Rightarrow> CompilationStateImpl" where
  "new_CompilationStateImpl dchecks names FLAG_wasm_tier_up origin_is_wasm num_tasks
       NumberOfWorkerThreads =
     \<lparr>dcheck_is_on = dchecks,
      FLAG_wasm_num_compilation_tasks = num_tasks,
      function_name = names,
      compile_mode = (if FLAG_wasm_tier_up \<and> origin_is_wasm then kTiering else kRegular),
      compile_error = None,
      baseline_compilation_units = [],
      tiering_compilation_units = [],
      finisher_is_running = False,
      num_background_tasks = 0,
      baseline_finish_units = [],
      tiering_finish_units = [],
      callbacks = [],
      max_background_tasks = word_of_int (max 1 (min num_tasks NumberOfWorkerThreads)),
      outstanding_baseline_units = 0,
      outstanding_tiering_units = 0,
      foreground_tasks = [],
      worker_tasks = [],
      notified = []\<rparr>"

definition SetNumberOfFunctionsToCompile ::
  "size_t \<Rightarrow> CompilationStateImpl \<Rightarrow> failure + CompilationStateImpl" where
  "SetNumberOfFunctionsToCompile num_functions s =
     (if dcheck_fails s (\<not> failed s) then Inl DCheckFailure
      else
        let s1 = s\<lparr>outstanding_baseline_units := num_functions\<rparr>
        in if compile_mode s1 = kTiering
           then Inr (s1\<lparr>outstanding_tiering_units := num_functions\<rparr>)
           else Inr s1)"

definition AddCallback :: "callback_t \<Rightarrow> CompilationStateImpl \<Rightarrow> CompilationStateImpl" where
  "AddCallback callback s = s\<lparr>callbacks := callbacks s @ [callback]\<rparr>"

text \<open>
  \<^verbatim>\<open>RestartBackgroundTasks\<close> (lines 3175 to 3203). The loop at its end posts one
  \<^verbatim>\<open>BackgroundCompileTask\<close> for each unit of \<^verbatim>\<open>num_restart\<close>.
\<close>

primrec spawn_background_tasks :: "nat \<Rightarrow> CompilationStateImpl \<Rightarrow> CompilationStateImpl" where
  "spawn_background_tasks 0 s = s"
| "spawn_background_tasks (Suc num_restart) s =
     spawn_background_tasks num_restart
       (if 0 < FLAG_wasm_num_compilation_tasks s
        then CallOnWorkerThread BackgroundCompileTask s
        else PostTask BackgroundCompileTask s)"

definition size_t_max :: size_t where
  "size_t_max = - 1"

definition RestartBackgroundTasks ::
  "size_t \<Rightarrow> CompilationStateImpl \<Rightarrow> failure + CompilationStateImpl" where
  "RestartBackgroundTasks max_tasks s =
     (if failed s then Inr s
      else if dcheck_fails s (num_background_tasks s \<le> max_background_tasks s)
      then Inl DCheckFailure
      else if num_background_tasks s = max_background_tasks s then Inr s
      else
        let num_compilation_units =
              (of_nat (length (baseline_compilation_units s)) :: size_t)
              + of_nat (length (tiering_compilation_units s));
            stopped_tasks = max_background_tasks s - num_background_tasks s;
            num_restart = min max_tasks (min num_compilation_units stopped_tasks)
        in Inr (spawn_background_tasks (unat num_restart)
                 (s\<lparr>num_background_tasks := num_background_tasks s + num_restart\<rparr>)))"

text \<open>
  \<^verbatim>\<open>AddCompilationUnits\<close> (lines 3038 to 3062). \<^verbatim>\<open>tiering_units.back()\<close> inside the second
  DCHECK is evaluated only when DCHECK is on; on an empty vector it is undefined behaviour.
\<close>

definition AddCompilationUnits ::
  "WasmCompilationUnit list \<Rightarrow> WasmCompilationUnit list \<Rightarrow> CompilationStateImpl
     \<Rightarrow> failure + CompilationStateImpl" where
  "AddCompilationUnits baseline_units tiering_units s =
     (case
        (if compile_mode s = kTiering then
           if dcheck_fails s (length baseline_units = length tiering_units)
           then Inl DCheckFailure
           else if dcheck_is_on s \<and> tiering_units = [] then Inl UndefinedBehaviour
           else if dcheck_fails s (unit_tier (last tiering_units) = kOptimized)
           then Inl DCheckFailure
           else Inr (s\<lparr>tiering_compilation_units :=
                         tiering_compilation_units s @ tiering_units\<rparr>)
         else if dcheck_fails s (tiering_compilation_units s = []) then Inl DCheckFailure
         else Inr s)
      of Inl e \<Rightarrow> Inl e
       | Inr s1 \<Rightarrow>
           RestartBackgroundTasks size_t_max
             (s1\<lparr>baseline_compilation_units :=
                   baseline_compilation_units s1 @ baseline_units\<rparr>))"

definition GetNextCompilationUnit ::
  "CompilationStateImpl \<Rightarrow> WasmCompilationUnit option \<times> CompilationStateImpl" where
  "GetNextCompilationUnit s =
     (if baseline_compilation_units s = [] then
        if tiering_compilation_units s \<noteq> []
        then (Some (last (tiering_compilation_units s)),
              s\<lparr>tiering_compilation_units := butlast (tiering_compilation_units s)\<rparr>)
        else (None, s)
      else (Some (last (baseline_compilation_units s)),
            s\<lparr>baseline_compilation_units := butlast (baseline_compilation_units s)\<rparr>))"

definition GetNextExecutedUnit ::
  "CompilationStateImpl \<Rightarrow> WasmCompilationUnit option \<times> CompilationStateImpl" where
  "GetNextExecutedUnit s =
     (if finish_units s = [] then (None, s)
      else if finish_units_is_tiering s
      then (Some (last (tiering_finish_units s)),
            s\<lparr>tiering_finish_units := butlast (tiering_finish_units s)\<rparr>)
      else (Some (last (baseline_finish_units s)),
            s\<lparr>baseline_finish_units := butlast (baseline_finish_units s)\<rparr>))"

definition HasCompilationUnitToFinish :: "CompilationStateImpl \<Rightarrow> bool" where
  "HasCompilationUnitToFinish s = (finish_units s \<noteq> [])"

text \<open>\<^verbatim>\<open>OnFinishedUnit\<close> (lines 3096 to 3126).\<close>

definition OnFinishedUnit :: "CompilationStateImpl \<Rightarrow> failure + CompilationStateImpl" where
  "OnFinishedUnit s =
     (let is_tiering_mode = (compile_mode s = kTiering);
          is_tiering_unit = (is_tiering_mode \<and> outstanding_baseline_units s = 0)
      in
      if dcheck_fails s (\<not> is_tiering_mode \<longrightarrow> outstanding_tiering_units s = 0)
      then Inl DCheckFailure
      else if is_tiering_unit then
        if dcheck_fails s (0 < outstanding_tiering_units s) then Inl DCheckFailure
        else
          let s1 = s\<lparr>outstanding_tiering_units := outstanding_tiering_units s - 1\<rparr>
          in if outstanding_tiering_units s1 = 0 then
               if dcheck_fails s1 (0 = outstanding_baseline_units s1) then Inl DCheckFailure
               else Inr (NotifyOnEvent kFinishedTopTierCompilation None s1)
             else Inr s1
      else
        if dcheck_fails s (0 < outstanding_baseline_units s) then Inl DCheckFailure
        else
          let s1 = s\<lparr>outstanding_baseline_units := outstanding_baseline_units s - 1\<rparr>
          in if outstanding_baseline_units s1 = 0 then
               let s2 = NotifyOnEvent kFinishedBaselineCompilation None s1
               in if \<not> is_tiering_mode
                  then Inr (NotifyOnEvent kFinishedTopTierCompilation None s2)
                  else Inr s2
             else Inr s1)"

definition ScheduleFinisherTask :: "CompilationStateImpl \<Rightarrow> CompilationStateImpl" where
  "ScheduleFinisherTask s = PostTask FinishCompileTask s"

text \<open>\<^verbatim>\<open>ScheduleUnitForFinishing\<close> (lines 3128 to 3143).\<close>

definition ScheduleUnitForFinishing ::
  "WasmCompilationUnit \<Rightarrow> ExecutionTier \<Rightarrow> CompilationStateImpl \<Rightarrow> CompilationStateImpl" where
  "ScheduleUnitForFinishing unit tier s =
     (let s1 = (if compile_mode s = kTiering \<and> tier = kOptimized
                then s\<lparr>tiering_finish_units := tiering_finish_units s @ [unit]\<rparr>
                else s\<lparr>baseline_finish_units := baseline_finish_units s @ [unit]\<rparr>)
      in if \<not> finisher_is_running s1 \<and> \<not> failed s1
         then (ScheduleFinisherTask s1)\<lparr>finisher_is_running := True\<rparr>
         else s1)"

text \<open>
  \<^verbatim>\<open>OnBackgroundTaskStopped\<close> (lines 3157 to 3163); the detected features are left out of
  the model.
\<close>

definition OnBackgroundTaskStopped ::
  "CompilationStateImpl \<Rightarrow> failure + CompilationStateImpl" where
  "OnBackgroundTaskStopped s =
     (if dcheck_fails s (1 \<le> num_background_tasks s) then Inl DCheckFailure
      else Inr (s\<lparr>num_background_tasks := num_background_tasks s - 1\<rparr>))"

definition SetFinisherIsRunning ::
  "bool \<Rightarrow> CompilationStateImpl \<Rightarrow> bool \<times> CompilationStateImpl" where
  "SetFinisherIsRunning v s =
     (if finisher_is_running s = v then (False, s)
      else (True, s\<lparr>finisher_is_running := v\<rparr>))"

text \<open>\<^verbatim>\<open>SetError\<close> (lines 3230 to 3250): the compare-and-exchange succeeds on a null pointer only.\<close>

definition SetError ::
  "uint32_t \<Rightarrow> ResultBase \<Rightarrow> CompilationStateImpl \<Rightarrow> failure + CompilationStateImpl" where
  "SetError i error_result s =
     (if dcheck_fails s (result_failed error_result) then Inl DCheckFailure
      else
        case compile_error s of
          Some expected \<Rightarrow> Inr s
        | None \<Rightarrow>
            Inr (PostTask NotifyFailedTask
                  (s\<lparr>compile_error := Some (new_CompilationError i error_result)\<rparr>)))"

text \<open>The body of the task that \<^verbatim>\<open>SetError\<close> posts (lines 3246 to 3249).\<close>

definition NotifyFailedTask_Run ::
  "CompilationStateImpl \<Rightarrow> failure + CompilationStateImpl" where
  "NotifyFailedTask_Run s =
     (case GetCompileError s of
        Inl e \<Rightarrow> Inl e
      | Inr error_result \<Rightarrow> Inr (NotifyOnEvent kFailedCompilation (Some error_result) s))"

text \<open>
  \<^verbatim>\<open>CancelAndWait\<close> of a task manager removes the tasks registered with it that have not
  run: the background manager holds the \<^verbatim>\<open>BackgroundCompileTask\<close>s (also those posted to the
  foreground runner), the foreground manager the finisher tasks and the failure
  notification. \<^verbatim>\<open>FreeCallbacksTask\<close> is a plain task and stays.
\<close>

definition background_CancelAndWait :: "CompilationStateImpl \<Rightarrow> CompilationStateImpl" where
  "background_CancelAndWait s =
     s\<lparr>foreground_tasks := filter (\<lambda>t. t \<noteq> BackgroundCompileTask) (foreground_tasks s),
       worker_tasks := filter (\<lambda>t. t \<noteq> BackgroundCompileTask) (worker_tasks s)\<rparr>"

definition foreground_CancelAndWait :: "CompilationStateImpl \<Rightarrow> CompilationStateImpl" where
  "foreground_CancelAndWait s =
     s\<lparr>foreground_tasks :=
         filter (\<lambda>t. t \<noteq> FinishCompileTask \<and> t \<noteq> NotifyFailedTask) (foreground_tasks s)\<rparr>"

definition CancelAndWait :: "CompilationStateImpl \<Rightarrow> CompilationStateImpl" where
  "CancelAndWait s = foreground_CancelAndWait (background_CancelAndWait s)"

text \<open>\<^verbatim>\<open>Abort\<close> (lines 3217 to 3228); the callbacks are moved into the task.\<close>

definition Abort :: "CompilationStateImpl \<Rightarrow> failure + CompilationStateImpl" where
  "Abort s =
     (case SetError 0 (VoidResult_Error 0 ''Compilation aborted'') s of
        Inl e \<Rightarrow> Inl e
      | Inr s1 \<Rightarrow>
          let s2 = background_CancelAndWait s1;
              s3 = (if callbacks s2 \<noteq> []
                    then PostTask (FreeCallbacksTask (callbacks s2)) (s2\<lparr>callbacks := []\<rparr>)
                    else s2)
          in if dcheck_fails s3 (callbacks s3 = []) then Inl DCheckFailure else Inr s3)"

subsection \<open>The unit builder (lines 568 to 617)\<close>

record CompilationUnitBuilder =
  baseline_units :: "WasmCompilationUnit list"
  tiering_units :: "WasmCompilationUnit list"

definition CreateUnit :: "uint32_t \<Rightarrow> ExecutionTier \<Rightarrow> WasmCompilationUnit" where
  "CreateUnit i tier = \<lparr>unit_func_index = i, unit_tier = tier\<rparr>"

text \<open>
  \<^verbatim>\<open>AddUnit\<close>; \<open>default_tier\<close> is what \<^verbatim>\<open>WasmCompilationUnit::GetDefaultExecutionTier()\<close>
  returns, a function declared outside this file.
\<close>

definition AddUnit ::
  "ExecutionTier \<Rightarrow> CompilationStateImpl \<Rightarrow> uint32_t \<Rightarrow> CompilationUnitBuilder
     \<Rightarrow> CompilationUnitBuilder" where
  "AddUnit default_tier s i b =
     (case compile_mode s of
        kTiering \<Rightarrow>
          b\<lparr>tiering_units := tiering_units b @ [CreateUnit i kOptimized],
            baseline_units := baseline_units b @ [CreateUnit i kBaseline]\<rparr>
      | kRegular \<Rightarrow>
          b\<lparr>baseline_units := baseline_units b @ [CreateUnit i default_tier]\<rparr>)"

definition Clear :: "CompilationUnitBuilder \<Rightarrow> CompilationUnitBuilder" where
  "Clear b = b\<lparr>baseline_units := [], tiering_units := []\<rparr>"

definition Commit ::
  "CompilationUnitBuilder \<Rightarrow> CompilationStateImpl
     \<Rightarrow> failure + (bool \<times> CompilationUnitBuilder \<times> CompilationStateImpl)" where
  "Commit b s =
     (if baseline_units b = [] \<and> tiering_units b = [] then Inr (False, b, s)
      else
        case AddCompilationUnits (baseline_units b) (tiering_units b) s of
          Inl e \<Rightarrow> Inl e
        | Inr s1 \<Rightarrow> Inr (True, Clear b, s1))"

subsection \<open>Sequences of calls\<close>


text \<open>
  The foreground runner reaches the failure notification that \<^verbatim>\<open>SetError\<close> posted and runs
  it; without such a task in the queue nothing happens.
\<close>

definition RunNotifyFailedTask :: "CompilationStateImpl \<Rightarrow> failure + CompilationStateImpl" where
  "RunNotifyFailedTask s =
     (if NotifyFailedTask \<in> set (foreground_tasks s)
      then NotifyFailedTask_Run
             (s\<lparr>foreground_tasks := remove1 NotifyFailedTask (foreground_tasks s)\<rparr>)
      else Inr s)"

text \<open>Calls of \<^verbatim>\<open>OnFinishedUnit\<close> one after the other, as the finisher makes them.\<close>

primrec OnFinishedUnit_times ::
  "nat \<Rightarrow> CompilationStateImpl \<Rightarrow> failure + CompilationStateImpl" where
  "OnFinishedUnit_times 0 s = Inr s"
| "OnFinishedUnit_times (Suc n) s =
     (case OnFinishedUnit s of Inl e \<Rightarrow> Inl e | Inr s1 \<Rightarrow> OnFinishedUnit_times n s1)"

text \<open>
  The operations on a compilation state: the member functions, and the run of the failure
  notification. The finisher, the background tasks and the drivers are sequences of these
  calls, and every interleaving of threads is a sequence of them, the mutex making each
  one atomic.
\<close>

datatype Operation =
  DoSetNumberOfFunctionsToCompile size_t
| DoAddCallback callback_t
| DoAddCompilationUnits "WasmCompilationUnit list" "WasmCompilationUnit list"
| DoGetNextCompilationUnit
| DoGetNextExecutedUnit
| DoOnFinishedUnit
| DoScheduleUnitForFinishing WasmCompilationUnit ExecutionTier
| DoOnBackgroundTaskStopped
| DoRestartBackgroundTasks size_t
| DoSetFinisherIsRunning bool
| DoScheduleFinisherTask
| DoAbort
| DoSetError uint32_t ResultBase
| DoCancelAndWait
| DoRunNotifyFailedTask

fun step :: "Operation \<Rightarrow> CompilationStateImpl \<Rightarrow> failure + CompilationStateImpl" where
  "step (DoSetNumberOfFunctionsToCompile n) s = SetNumberOfFunctionsToCompile n s"
| "step (DoAddCallback c) s = Inr (AddCallback c s)"
| "step (DoAddCompilationUnits bs ts) s = AddCompilationUnits bs ts s"
| "step DoGetNextCompilationUnit s = Inr (snd (GetNextCompilationUnit s))"
| "step DoGetNextExecutedUnit s = Inr (snd (GetNextExecutedUnit s))"
| "step DoOnFinishedUnit s = OnFinishedUnit s"
| "step (DoScheduleUnitForFinishing u tier) s = Inr (ScheduleUnitForFinishing u tier s)"
| "step DoOnBackgroundTaskStopped s = OnBackgroundTaskStopped s"
| "step (DoRestartBackgroundTasks m) s = RestartBackgroundTasks m s"
| "step (DoSetFinisherIsRunning v) s = Inr (snd (SetFinisherIsRunning v s))"
| "step DoScheduleFinisherTask s = Inr (ScheduleFinisherTask s)"
| "step DoAbort s = Abort s"
| "step (DoSetError i r) s = SetError i r s"
| "step DoCancelAndWait s = Inr (CancelAndWait s)"
| "step DoRunNotifyFailedTask s = RunNotifyFailedTask s"

fun run :: "Operation list \<Rightarrow> CompilationStateImpl \<Rightarrow> failure + CompilationStateImpl" where
  "run [] s = Inr s"
| "run (x # xs) s = (case step x s of Inl e \<Rightarrow> Inl e | Inr s1 \<Rightarrow> run xs s1)"

fun is_AddCallback :: "Operation \<Rightarrow> bool" where
  "is_AddCallback (DoAddCallback c) = True"
| "is_AddCallback x = False"

text \<open>
  The events delivered: the calls of \<^verbatim>\<open>NotifyOnEvent\<close> that reached at least one callback,
  in order.
\<close>

definition delivered :: "CompilationStateImpl \<Rightarrow> CompilationEvent list" where
  "delivered s = map fst (filter (\<lambda>n. snd (snd n) \<noteq> []) (notified s))"

text \<open>A final event, when there is one, is the last event of the list.\<close>

fun final_is_last :: "CompilationEvent list \<Rightarrow> bool" where
  "final_is_last [] = True"
| "final_is_last (e # es) = (if is_final_event e then es = [] else final_is_last es)"

subsection \<open>States used as examples\<close>

definition example_regular :: CompilationStateImpl where
  "example_regular = new_CompilationStateImpl True (\<lambda>i. None) False True 4 4"

definition example_tiering :: CompilationStateImpl where
  "example_tiering = new_CompilationStateImpl True (\<lambda>i. None) True True 4 4"

definition example_release :: CompilationStateImpl where
  "example_release = new_CompilationStateImpl False (\<lambda>i. None) True True 4 4"

definition example_named :: CompilationStateImpl where
  "example_named =
     new_CompilationStateImpl True (\<lambda>i. if i = 2 then Some ''add'' else None) True True 4 4"

definition example_unit :: WasmCompilationUnit where
  "example_unit = CreateUnit 0 kOptimized"

definition example_error :: ResultBase where
  "example_error = VoidResult_Error 7 ''type mismatch''"

definition example_builder :: CompilationUnitBuilder where
  "example_builder = \<lparr>baseline_units = [example_unit], tiering_units = []\<rparr>"

text \<open>Reading a decimal numeral back, to say what \<open>string_of_nat\<close> prints.\<close>

definition nat_of_decimal :: "string \<Rightarrow> nat" where
  "nat_of_decimal cs = foldl (\<lambda>acc c. 10 * acc + (of_char c - 48)) 0 cs"

text \<open>
  What \<^verbatim>\<open>NotifyOnEvent\<close> maintains: among the delivered events a final one is the last,
  and once a final event has been delivered no callback is registered.
\<close>

definition delivery_inv :: "CompilationStateImpl \<Rightarrow> bool" where
  "delivery_inv s =
     (final_is_last (delivered s) \<and>
      ((\<exists>e\<in>set (delivered s). is_final_event e) \<longrightarrow> callbacks s = []))"

text \<open>
  What the spec means by the index in \<^verbatim>\<open>wasm-function[i]\<close>: the decimal numeral of \<open>i\<close>.
  A string is the decimal numeral of \<open>n\<close> when it is not empty, holds ASCII digits only
  (codes 48 to 57), starts with the digit 0 only when it is that single digit, and reads
  back as \<open>n\<close>.
\<close>

definition is_digit :: "char \<Rightarrow> bool" where
  "is_digit c = (48 \<le> (of_char c :: nat) \<and> (of_char c :: nat) \<le> 57)"

definition decimal_numeral :: "string \<Rightarrow> nat \<Rightarrow> bool" where
  "decimal_numeral ds n =
     (ds \<noteq> [] \<and> list_all is_digit ds \<and>
      ((of_char (hd ds) :: nat) = 48 \<longrightarrow> length ds = 1) \<and>
      nat_of_decimal ds = n)"

text \<open>
  The two counters as \<^verbatim>\<open>SetNumberOfFunctionsToCompile\<close> and \<^verbatim>\<open>OnFinishedUnit\<close> leave them: in
  tiering mode the tiering counter is zero only when the baseline counter is.
\<close>

definition counters_inv :: "CompilationStateImpl \<Rightarrow> bool" where
  "counters_inv s =
     (compile_mode s = kTiering \<and> outstanding_tiering_units s = 0 \<longrightarrow>
      outstanding_baseline_units s = 0)"

text \<open>
  A sequence of operations registers its callbacks in time when no \<^verbatim>\<open>AddCallback\<close> comes
  after a final event has been delivered.
\<close>

fun registered_in_time :: "Operation list \<Rightarrow> CompilationStateImpl \<Rightarrow> bool" where
  "registered_in_time [] s = True"
| "registered_in_time (x # xs) s =
     ((is_AddCallback x \<longrightarrow> \<not> list_ex is_final_event (delivered s)) \<and>
      (case step x s of Inl e \<Rightarrow> True | Inr s1 \<Rightarrow> registered_in_time xs s1))"

text \<open>The events a sequence of operations delivers, when it returns.\<close>

definition delivered_by ::
  "Operation list \<Rightarrow> CompilationStateImpl \<Rightarrow> failure + CompilationEvent list" where
  "delivered_by xs s = (case run xs s of Inl e \<Rightarrow> Inl e | Inr s' \<Rightarrow> Inr (delivered s'))"

definition example_late_run :: "Operation list" where
  "example_late_run =
     [DoAddCallback 5, DoSetNumberOfFunctionsToCompile 1, DoOnFinishedUnit,
      DoAddCallback 6, DoSetError 0 example_error, DoRunNotifyFailedTask]"

definition example_run :: "Operation list" where
  "example_run =
     [DoAddCallback 5, DoSetNumberOfFunctionsToCompile 1, DoAddCallback 6, DoOnFinishedUnit,
      DoSetError 0 example_error, DoRunNotifyFailedTask]"

definition example_failed :: "uint32_t \<Rightarrow> CompilationStateImpl" where
  "example_failed i = example_named\<lparr>compile_error := Some (new_CompilationError i example_error)\<rparr>"

section \<open>Theorems\<close>

lemmas example_defs =
  example_regular_def example_tiering_def example_release_def example_named_def
  new_CompilationStateImpl_def example_unit_def example_error_def CreateUnit_def
  VoidResult_Error_def

subsection \<open>Auxiliary facts\<close>

lemma string_of_nat_decimal: "nat_of_decimal (string_of_nat n) = n"
proof (induction n rule: string_of_nat.induct)
  case (1 n)
  show ?case
  proof (cases "n < 10")
    case True
    then show ?thesis
      by (subst string_of_nat.simps) (simp add: nat_of_decimal_def)
  next
    case False
    have "n mod 10 < 10" by simp
    then have d: "(48 + n mod 10) mod 256 = 48 + n mod 10" by simp
    from False 1 have "nat_of_decimal (string_of_nat (n div 10)) = n div 10" by simp
    with False d show ?thesis
      by (subst string_of_nat.simps) (simp add: nat_of_decimal_def)
  qed
qed

lemma spawn_background_tasks_eq:
  "spawn_background_tasks n s =
     (if 0 < FLAG_wasm_num_compilation_tasks s
      then s\<lparr>worker_tasks := worker_tasks s @ replicate n BackgroundCompileTask\<rparr>
      else s\<lparr>foreground_tasks := foreground_tasks s @ replicate n BackgroundCompileTask\<rparr>)"
proof (induction n arbitrary: s)
  case 0
  show ?case by simp
next
  case (Suc n)
  show ?case
    by (simp add: Suc CallOnWorkerThread_def PostTask_def replicate_append_same)
qed

lemma RestartBackgroundTasks_units:
  assumes "RestartBackgroundTasks m s = Inr s'"
  shows "baseline_compilation_units s' = baseline_compilation_units s \<and>
         tiering_compilation_units s' = tiering_compilation_units s"
  using assms
  by (auto simp: RestartBackgroundTasks_def spawn_background_tasks_eq Let_def split: if_splits)

lemma AddCompilationUnits_baseline:
  assumes "AddCompilationUnits bs ts s = Inr s'"
  shows "baseline_compilation_units s' = baseline_compilation_units s @ bs"
  using assms
  by (auto simp: AddCompilationUnits_def split: if_splits sum.splits
      dest!: RestartBackgroundTasks_units)

lemma OnFinishedUnit_keeps_tiering:
  assumes "OnFinishedUnit s = Inr s'" and "outstanding_baseline_units s \<noteq> 0"
  shows "outstanding_tiering_units s' = outstanding_tiering_units s"
  using assms
  by (auto simp: OnFinishedUnit_def NotifyOnEvent_def Let_def split: if_splits)

lemma OnFinishedUnit_times_drains:
  "OnFinishedUnit_times n s = Inr s' \<Longrightarrow>
   outstanding_tiering_units s' \<noteq> outstanding_tiering_units s \<Longrightarrow>
   \<exists>k<n. \<exists>t. OnFinishedUnit_times k s = Inr t \<and> outstanding_baseline_units t = 0 \<and>
          outstanding_tiering_units t = outstanding_tiering_units s"
proof (induction n arbitrary: s)
  case 0
  then show ?case by simp
next
  case (Suc n)
  show ?case
  proof (cases "outstanding_baseline_units s = 0")
    case True
    have "OnFinishedUnit_times 0 s = Inr s" by simp
    with True show ?thesis by blast
  next
    case False
    from Suc.prems(1) obtain s1 where
      s1: "OnFinishedUnit s = Inr s1" and rest: "OnFinishedUnit_times n s1 = Inr s'"
      by (auto split: sum.splits)
    from s1 False have same: "outstanding_tiering_units s1 = outstanding_tiering_units s"
      by (rule OnFinishedUnit_keeps_tiering)
    with Suc.prems(2) have "outstanding_tiering_units s' \<noteq> outstanding_tiering_units s1"
      by simp
    from Suc.IH [OF rest this] obtain k t where
      k: "k < n" and t: "OnFinishedUnit_times k s1 = Inr t"
      and z: "outstanding_baseline_units t = 0"
      and e: "outstanding_tiering_units t = outstanding_tiering_units s1"
      by blast
    from s1 t have "OnFinishedUnit_times (Suc k) s = Inr t" by simp
    moreover from k have "Suc k < Suc n" by simp
    ultimately show ?thesis using z e same by metis
  qed
qed



lemma unat_min: "unat (min a b) = min (unat a) (unat (b :: size_t))"
  by (simp add: min_def word_le_nat_alt)

lemma size_of_units:
  assumes "length bs + length ts < 2 ^ 64"
  shows "unat ((of_nat (length bs) :: size_t) + of_nat (length ts)) = length bs + length ts"
proof -
  from assms have "length bs < 2 ^ 64" and "length ts < 2 ^ 64" by simp_all
  with assms show ?thesis
    by (simp add: unat_word_ariths unat_of_nat)
qed

lemma restart_count:
  assumes le: "num \<le> (mx :: size_t)" and n: "n \<le> mx - num"
  shows "unat (num + n) = unat num + unat n \<and> num + n \<le> mx"
proof -
  from le have d: "unat (mx - num) = unat mx - unat num" by (rule unat_sub)
  from le have l: "unat num \<le> unat mx" by (simp add: word_le_nat_alt)
  from n d have k: "unat n \<le> unat mx - unat num" by (simp add: word_le_nat_alt)
  have b: "unat mx < 2 ^ 64" using unsigned_less [of mx] by simp
  from k l b have "unat num + unat n < 2 ^ LENGTH(64)" by simp
  then have e: "unat (num + n) = unat num + unat n" by (rule unat_add_lem [THEN iffD1])
  with k l have "unat (num + n) \<le> unat mx" by simp
  with e show ?thesis by (simp add: word_le_nat_alt)
qed

lemma RestartBackgroundTasks_bounded:
  assumes "RestartBackgroundTasks m s = Inr s'"
    and "num_background_tasks s \<le> max_background_tasks s"
  shows "num_background_tasks s' \<le> max_background_tasks s'"
proof (cases "failed s \<or> num_background_tasks s = max_background_tasks s")
  case True
  with assms show ?thesis
    by (auto simp: RestartBackgroundTasks_def split: if_splits)
next
  case False
  let ?n = "min m (min ((of_nat (length (baseline_compilation_units s)) :: size_t)
                         + of_nat (length (tiering_compilation_units s)))
                       (max_background_tasks s - num_background_tasks s))"
  have "?n \<le> max_background_tasks s - num_background_tasks s"
    by (simp add: min_le_iff_disj)
  with assms(2) have "num_background_tasks s + ?n \<le> max_background_tasks s"
    using restart_count by blast
  with False assms show ?thesis
    by (auto simp: RestartBackgroundTasks_def spawn_background_tasks_eq Let_def
        split: if_splits)
qed

lemma RestartBackgroundTasks_count:
  assumes inv: "num_background_tasks s \<le> max_background_tasks s"
    and len: "length (baseline_compilation_units s) + length (tiering_compilation_units s)
                < 2 ^ 64"
  shows "\<exists>s'. RestartBackgroundTasks m s = Inr s' \<and>
     (let n = (if failed s then 0
               else min (unat m)
                      (min (length (baseline_compilation_units s)
                              + length (tiering_compilation_units s))
                           (unat (max_background_tasks s) - unat (num_background_tasks s))))
      in unat (num_background_tasks s') = unat (num_background_tasks s) + n \<and>
         (if 0 < FLAG_wasm_num_compilation_tasks s
          then worker_tasks s' = worker_tasks s @ replicate n BackgroundCompileTask \<and>
               foreground_tasks s' = foreground_tasks s
          else foreground_tasks s' = foreground_tasks s @ replicate n BackgroundCompileTask \<and>
               worker_tasks s' = worker_tasks s))"
proof (cases "failed s")
  case True
  then show ?thesis by (simp add: RestartBackgroundTasks_def)
next
  case nf: False
  show ?thesis
  proof (cases "num_background_tasks s = max_background_tasks s")
    case True
    with nf inv show ?thesis
      by (simp add: RestartBackgroundTasks_def dcheck_fails_def)
  next
    case False
    let ?u = "(of_nat (length (baseline_compilation_units s)) :: size_t)
                + of_nat (length (tiering_compilation_units s))"
    let ?st = "max_background_tasks s - num_background_tasks s"
    let ?n = "min m (min ?u ?st)"
    have le: "?n \<le> ?st" by (simp add: min_le_iff_disj)
    from inv have d: "unat ?st = unat (max_background_tasks s) - unat (num_background_tasks s)"
      by (rule unat_sub)
    from len have u: "unat ?u = length (baseline_compilation_units s)
                                  + length (tiering_compilation_units s)"
      by (rule size_of_units)
    have n: "unat ?n = min (unat m)
                      (min (length (baseline_compilation_units s)
                              + length (tiering_compilation_units s))
                           (unat (max_background_tasks s) - unat (num_background_tasks s)))"
      by (simp only: unat_min u d)
    from restart_count [OF inv le]
    have a: "unat (num_background_tasks s + ?n) = unat (num_background_tasks s) + unat ?n"
      by simp
    have r: "RestartBackgroundTasks m s =
               Inr (spawn_background_tasks (unat ?n)
                      (s\<lparr>num_background_tasks := num_background_tasks s + ?n\<rparr>))"
      using nf False inv by (simp add: RestartBackgroundTasks_def dcheck_fails_def Let_def)
    let ?s' = "spawn_background_tasks (unat ?n)
                 (s\<lparr>num_background_tasks := num_background_tasks s + ?n\<rparr>)"
    define k where "k = unat ?n"
    have num: "unat (num_background_tasks ?s') = unat (num_background_tasks s) + k"
      using a by (simp add: spawn_background_tasks_eq k_def)
    have tasks: "(if 0 < FLAG_wasm_num_compilation_tasks s
          then worker_tasks ?s' = worker_tasks s @ replicate k BackgroundCompileTask \<and>
               foreground_tasks ?s' = foreground_tasks s
          else foreground_tasks ?s' = foreground_tasks s @ replicate k BackgroundCompileTask \<and>
               worker_tasks ?s' = worker_tasks s)"
      by (simp add: spawn_background_tasks_eq k_def)
    from n have k: "(if failed s then 0
               else min (unat m)
                      (min (length (baseline_compilation_units s)
                              + length (tiering_compilation_units s))
                           (unat (max_background_tasks s) - unat (num_background_tasks s)))) = k"
      using nf by (simp only: k_def if_False)
    show ?thesis
      unfolding r Let_def k using num tasks by blast
  qed
qed

lemma step_keeps_bound:
  assumes st: "step x s = Inr s'"
    and inv: "num_background_tasks s \<le> max_background_tasks s"
    and stopped: "x = DoOnBackgroundTaskStopped \<longrightarrow> num_background_tasks s \<noteq> 0"
  shows "num_background_tasks s' \<le> max_background_tasks s'"
proof (cases x)
  case (DoSetNumberOfFunctionsToCompile n)
  with st inv show ?thesis
    by (auto simp: SetNumberOfFunctionsToCompile_def Let_def split: if_splits)
next
  case (DoAddCallback c)
  with st inv show ?thesis by (auto simp: AddCallback_def)
next
  case (DoAddCompilationUnits bs ts)
  with st obtain s1 where
    r: "RestartBackgroundTasks size_t_max s1 = Inr s'"
    and same: "num_background_tasks s1 = num_background_tasks s"
      "max_background_tasks s1 = max_background_tasks s"
    by (auto simp: AddCompilationUnits_def split: if_splits sum.splits)
  from same inv have "num_background_tasks s1 \<le> max_background_tasks s1" by simp
  with r show ?thesis by (rule RestartBackgroundTasks_bounded)
next
  case DoGetNextCompilationUnit
  with st inv show ?thesis by (auto simp: GetNextCompilationUnit_def split: if_splits)
next
  case DoGetNextExecutedUnit
  with st inv show ?thesis by (auto simp: GetNextExecutedUnit_def split: if_splits)
next
  case DoOnFinishedUnit
  with st inv show ?thesis
    by (auto simp: OnFinishedUnit_def NotifyOnEvent_def Let_def split: if_splits)
next
  case (DoScheduleUnitForFinishing u tier)
  with st inv show ?thesis
    by (auto simp: ScheduleUnitForFinishing_def ScheduleFinisherTask_def PostTask_def Let_def
        split: if_splits)
next
  case DoOnBackgroundTaskStopped
  with stopped have nz: "num_background_tasks s \<noteq> 0" by simp
  then have "unat (num_background_tasks s - 1) = unat (num_background_tasks s) - 1"
    by (rule unat_minus_one)
  with inv have "num_background_tasks s - 1 \<le> max_background_tasks s"
    by (simp add: word_le_nat_alt)
  with DoOnBackgroundTaskStopped st show ?thesis
    by (auto simp: OnBackgroundTaskStopped_def split: if_splits)
next
  case (DoRestartBackgroundTasks m)
  with st have "RestartBackgroundTasks m s = Inr s'" by simp
  from this inv show ?thesis by (rule RestartBackgroundTasks_bounded)
next
  case (DoSetFinisherIsRunning v)
  with st inv show ?thesis by (auto simp: SetFinisherIsRunning_def split: if_splits)
next
  case DoScheduleFinisherTask
  with st inv show ?thesis by (auto simp: ScheduleFinisherTask_def PostTask_def)
next
  case DoAbort
  with st inv show ?thesis
    by (auto simp: Abort_def SetError_def PostTask_def background_CancelAndWait_def Let_def
        split: if_splits sum.splits option.splits)
next
  case (DoSetError i r)
  with st inv show ?thesis
    by (auto simp: SetError_def PostTask_def split: if_splits option.splits)
next
  case DoCancelAndWait
  with st inv show ?thesis
    by (auto simp: CancelAndWait_def background_CancelAndWait_def foreground_CancelAndWait_def)
next
  case DoRunNotifyFailedTask
  with st inv show ?thesis
    by (auto simp: RunNotifyFailedTask_def NotifyFailedTask_Run_def NotifyOnEvent_def
        GetCompileError_def split: if_splits sum.splits option.splits)
qed

lemma unat_size_t_max: "unat size_t_max = 18446744073709551615"
  by (simp add: size_t_max_def unsigned_minus_1_eq_mask mask_eq_exp_minus_1)

lemma final_is_last_snoc:
  "\<forall>e\<in>set es. \<not> is_final_event e \<Longrightarrow> final_is_last (es @ [x])"
  by (induction es) auto

lemma final_is_last_index:
  "final_is_last es \<Longrightarrow> i < j \<Longrightarrow> j < length es \<Longrightarrow> \<not> is_final_event (es ! i)"
proof (induction es arbitrary: i j)
  case Nil
  then show ?case by simp
next
  case (Cons e es)
  show ?case
  proof (cases i)
    case 0
    with Cons.prems show ?thesis by (auto split: if_splits)
  next
    case (Suc i')
    with Cons.prems obtain j' where j: "j = Suc j'" "i' < j'" "j' < length es"
      by (cases j) auto
    from Cons.prems have "final_is_last es" by (auto split: if_splits)
    from Cons.IH [OF this j(2) j(3)] Suc show ?thesis by simp
  qed
qed

lemma final_is_last_count:
  "final_is_last es \<Longrightarrow> length (filter is_final_event es) \<le> 1"
  by (induction es) (auto split: if_splits)

lemma final_is_last_not_both:
  "final_is_last es \<Longrightarrow>
   \<not> (kFinishedTopTierCompilation \<in> set es \<and> kFailedCompilation \<in> set es)"
  by (induction es) (auto split: if_splits)

lemma NotifyOnEvent_inv:
  assumes "delivery_inv s"
  shows "delivery_inv (NotifyOnEvent e r s)"
proof (cases "callbacks s = []")
  case True
  with assms show ?thesis
    by (simp add: delivery_inv_def delivered_def NotifyOnEvent_def Let_def)
next
  case False
  with assms have nofinal: "\<forall>x\<in>set (delivered s). \<not> is_final_event x"
    by (auto simp: delivery_inv_def)
  have d: "delivered (NotifyOnEvent e r s) = delivered s @ [e]"
    using False by (simp add: delivered_def NotifyOnEvent_def Let_def)
  have c: "is_final_event e \<longrightarrow> callbacks (NotifyOnEvent e r s) = []"
    by (simp add: NotifyOnEvent_def Let_def)
  from nofinal have "final_is_last (delivered s @ [e])" by (rule final_is_last_snoc)
  with d c nofinal show ?thesis
    by (auto simp: delivery_inv_def)
qed

lemma delivery_inv_cong:
  assumes "delivery_inv s" and "notified s' = notified s"
    and "callbacks s' = callbacks s \<or> callbacks s' = []"
  shows "delivery_inv s'"
  using assms by (auto simp: delivery_inv_def delivered_def)

lemma delivery_inv_counters [simp]:
  "delivery_inv (s\<lparr>outstanding_baseline_units := b\<rparr>) = delivery_inv s"
  "delivery_inv (s\<lparr>outstanding_tiering_units := t\<rparr>) = delivery_inv s"
  "delivery_inv (s\<lparr>foreground_tasks := q\<rparr>) = delivery_inv s"
  by (simp_all add: delivery_inv_def delivered_def)

lemma OnFinishedUnit_inv:
  assumes "OnFinishedUnit s = Inr s'" and "delivery_inv s"
  shows "delivery_inv s'"
  using assms
  by (auto simp: OnFinishedUnit_def Let_def NotifyOnEvent_inv split: if_splits)

lemma RestartBackgroundTasks_same:
  assumes "RestartBackgroundTasks m s = Inr s'"
  shows "notified s' = notified s \<and> callbacks s' = callbacks s"
  using assms
  by (auto simp: RestartBackgroundTasks_def spawn_background_tasks_eq Let_def split: if_splits)

lemma AddCompilationUnits_same:
  assumes "AddCompilationUnits bs ts s = Inr s'"
  shows "notified s' = notified s \<and> callbacks s' = callbacks s"
  using assms
  by (auto simp: AddCompilationUnits_def split: if_splits sum.splits
      dest!: RestartBackgroundTasks_same)

lemma SetError_same:
  assumes "SetError i r s = Inr s'"
  shows "notified s' = notified s \<and> callbacks s' = callbacks s"
  using assms
  by (auto simp: SetError_def PostTask_def split: if_splits option.splits)

lemma Abort_same:
  assumes "Abort s = Inr s'"
  shows "notified s' = notified s \<and> (callbacks s' = callbacks s \<or> callbacks s' = [])"
proof -
  from assms obtain s1 where s1: "SetError 0 (VoidResult_Error 0 ''Compilation aborted'') s = Inr s1"
    by (auto simp: Abort_def split: sum.splits)
  from SetError_same [OF s1] assms s1 show ?thesis
    by (auto simp: Abort_def PostTask_def background_CancelAndWait_def Let_def
        split: if_splits)
qed

lemma RunNotifyFailedTask_inv:
  assumes "RunNotifyFailedTask s = Inr s'" and "delivery_inv s"
  shows "delivery_inv s'"
  using assms
  by (auto simp: RunNotifyFailedTask_def NotifyFailedTask_Run_def NotifyOnEvent_inv
      split: if_splits sum.splits)

lemma step_delivery_inv:
  assumes st: "step x s = Inr s'" and inv: "delivery_inv s" and no: "\<not> is_AddCallback x"
  shows "delivery_inv s'"
proof (cases x)
  case (DoSetNumberOfFunctionsToCompile n)
  with st inv show ?thesis
    by (auto simp: SetNumberOfFunctionsToCompile_def Let_def split: if_splits)
next
  case (DoAddCallback c)
  with no show ?thesis by simp
next
  case (DoAddCompilationUnits bs ts)
  with st have "AddCompilationUnits bs ts s = Inr s'" by simp
  from AddCompilationUnits_same [OF this] inv show ?thesis
    by (auto intro: delivery_inv_cong)
next
  case DoGetNextCompilationUnit
  with st have "notified s' = notified s \<and> callbacks s' = callbacks s"
    by (auto simp: GetNextCompilationUnit_def split: if_splits)
  with inv show ?thesis by (auto intro: delivery_inv_cong)
next
  case DoGetNextExecutedUnit
  with st have "notified s' = notified s \<and> callbacks s' = callbacks s"
    by (auto simp: GetNextExecutedUnit_def split: if_splits)
  with inv show ?thesis by (auto intro: delivery_inv_cong)
next
  case DoOnFinishedUnit
  with st inv show ?thesis by (auto intro: OnFinishedUnit_inv)
next
  case (DoScheduleUnitForFinishing u tier)
  with st have "notified s' = notified s \<and> callbacks s' = callbacks s"
    by (auto simp: ScheduleUnitForFinishing_def ScheduleFinisherTask_def PostTask_def Let_def
        split: if_splits)
  with inv show ?thesis by (auto intro: delivery_inv_cong)
next
  case DoOnBackgroundTaskStopped
  with st have "notified s' = notified s \<and> callbacks s' = callbacks s"
    by (auto simp: OnBackgroundTaskStopped_def split: if_splits)
  with inv show ?thesis by (auto intro: delivery_inv_cong)
next
  case (DoRestartBackgroundTasks m)
  with st have "RestartBackgroundTasks m s = Inr s'" by simp
  from RestartBackgroundTasks_same [OF this] inv show ?thesis
    by (auto intro: delivery_inv_cong)
next
  case (DoSetFinisherIsRunning v)
  with st have "notified s' = notified s \<and> callbacks s' = callbacks s"
    by (auto simp: SetFinisherIsRunning_def split: if_splits)
  with inv show ?thesis by (auto intro: delivery_inv_cong)
next
  case DoScheduleFinisherTask
  with st have "notified s' = notified s \<and> callbacks s' = callbacks s"
    by (auto simp: ScheduleFinisherTask_def PostTask_def)
  with inv show ?thesis by (auto intro: delivery_inv_cong)
next
  case DoAbort
  with st have "Abort s = Inr s'" by simp
  from Abort_same [OF this] inv show ?thesis
    by (auto intro: delivery_inv_cong)
next
  case (DoSetError i r)
  with st have "SetError i r s = Inr s'" by simp
  from SetError_same [OF this] inv show ?thesis
    by (auto intro: delivery_inv_cong)
next
  case DoCancelAndWait
  with st have "notified s' = notified s \<and> callbacks s' = callbacks s"
    by (auto simp: CancelAndWait_def background_CancelAndWait_def foreground_CancelAndWait_def)
  with inv show ?thesis by (auto intro: delivery_inv_cong)
next
  case DoRunNotifyFailedTask
  with st inv show ?thesis by (auto intro: RunNotifyFailedTask_inv)
qed

lemma run_delivery_inv:
  "run xs s = Inr s' \<Longrightarrow> delivery_inv s \<Longrightarrow> \<forall>x\<in>set xs. \<not> is_AddCallback x \<Longrightarrow>
   delivery_inv s'"
proof (induction xs arbitrary: s)
  case Nil
  then show ?case by simp
next
  case (Cons x xs)
  from Cons.prems(1) obtain s1 where
    one: "step x s = Inr s1" and rest: "run xs s1 = Inr s'"
    by (auto split: sum.splits)
  from Cons.prems(3) have "\<not> is_AddCallback x" by simp
  with one Cons.prems(2) have "delivery_inv s1" by (rule step_delivery_inv)
  with rest Cons.prems(3) show ?case by (auto intro: Cons.IH)
qed

lemma example_regular_fields:
  "dcheck_is_on example_regular" "compile_mode example_regular = kRegular"
  "compile_error example_regular = None" "callbacks example_regular = []"
  "outstanding_baseline_units example_regular = 0"
  "outstanding_tiering_units example_regular = 0"
  "foreground_tasks example_regular = []" "notified example_regular = []"
  by (simp_all add: example_regular_def new_CompilationStateImpl_def)

lemma nat_of_decimal_snoc:
  "nat_of_decimal (ds @ [c]) = 10 * nat_of_decimal ds + (of_char c - 48)"
  by (simp add: nat_of_decimal_def)

lemma digit_char: "d < 10 \<Longrightarrow> (of_char (char_of (48 + d)) :: nat) = 48 + d"
  by simp

lemma string_of_nat_nonempty: "string_of_nat n \<noteq> []"
  by (subst string_of_nat.simps) simp

lemma string_of_nat_digits: "list_all is_digit (string_of_nat n)"
proof (induction n rule: string_of_nat.induct)
  case (1 n)
  have m: "n mod 10 < 10" by simp
  show ?case
  proof (cases "n < 10")
    case True
    then show ?thesis
      by (subst string_of_nat.simps) (simp add: is_digit_def)
  next
    case False
    with 1 have "list_all is_digit (string_of_nat (n div 10))" by simp
    with False m show ?thesis
      by (subst string_of_nat.simps) (simp add: is_digit_def)
  qed
qed

lemma string_of_nat_leading:
  "(of_char (hd (string_of_nat n)) :: nat) = 48 \<Longrightarrow> n = 0"
proof (induction n rule: string_of_nat.induct)
  case (1 n)
  show ?case
  proof (cases "n < 10")
    case True
    with "1.prems" show ?thesis
      by (subst (asm) string_of_nat.simps) simp
  next
    case False
    from "1.prems" False
    have "(of_char (hd (string_of_nat (n div 10))) :: nat) = 48"
      by (subst (asm) string_of_nat.simps) (simp add: string_of_nat_nonempty)
    with False 1 have "n div 10 = 0" by simp
    with False show ?thesis by simp
  qed
qed

lemma string_of_nat_is_decimal: "decimal_numeral (string_of_nat n) n"
proof -
  have "(of_char (hd (string_of_nat n)) :: nat) = 48 \<longrightarrow> length (string_of_nat n) = 1"
  proof
    assume "(of_char (hd (string_of_nat n)) :: nat) = 48"
    then have "n = 0" by (rule string_of_nat_leading)
    then show "length (string_of_nat n) = 1"
      by (subst string_of_nat.simps) simp
  qed
  then show ?thesis
    by (simp add: decimal_numeral_def string_of_nat_nonempty string_of_nat_digits
        string_of_nat_decimal)
qed

lemma zero_value_leading:
  "list_all is_digit xs \<Longrightarrow> xs \<noteq> [] \<Longrightarrow> nat_of_decimal xs = 0 \<Longrightarrow>
   (of_char (hd xs) :: nat) = 48"
proof (induction xs rule: rev_induct)
  case Nil
  then show ?case by simp
next
  case (snoc c ys)
  from snoc.prems(3) have v: "nat_of_decimal ys = 0" and d: "(of_char c :: nat) - 48 = 0"
    by (simp_all add: nat_of_decimal_snoc)
  from snoc.prems(1) have c: "is_digit c" and ys: "list_all is_digit ys" by simp_all
  show ?case
  proof (cases "ys = []")
    case True
    with c d show ?thesis by (simp add: is_digit_def)
  next
    case False
    with snoc.IH ys v have "(of_char (hd ys) :: nat) = 48" by simp
    with False show ?thesis by simp
  qed
qed

lemma char_of_code: "(of_char c :: nat) = k \<Longrightarrow> c = char_of k"
  by (metis char_of_char)

lemma decimal_numeral_unique:
  "decimal_numeral ds n \<Longrightarrow> ds = string_of_nat n"
proof (induction n arbitrary: ds rule: string_of_nat.induct)
  case (1 n)
  from "1.prems" have ne: "ds \<noteq> []" and dig: "list_all is_digit ds"
    and lead: "(of_char (hd ds) :: nat) = 48 \<longrightarrow> length ds = 1"
    and val: "nat_of_decimal ds = n"
    by (simp_all add: decimal_numeral_def)
  from ne obtain xs c where ds: "ds = xs @ [c]"
    by (cases ds rule: rev_cases) auto
  from dig ds have c: "is_digit c" and xs: "list_all is_digit xs" by simp_all
  from c have cd: "(of_char c :: nat) = 48 + (of_char c - 48)"
    and cl: "(of_char c :: nat) - 48 < 10"
    by (auto simp: is_digit_def)
  from val ds have v: "n = 10 * nat_of_decimal xs + (of_char c - 48)"
    by (simp add: nat_of_decimal_snoc)
  from v cl have m: "n mod 10 = of_char c - 48" and q: "n div 10 = nat_of_decimal xs"
    by simp_all
  show ?case
  proof (cases "n < 10")
    case True
    with q have z: "nat_of_decimal xs = 0" by simp
    have "xs = []"
    proof (rule ccontr)
      assume nx: "xs \<noteq> []"
      with xs z have "(of_char (hd xs) :: nat) = 48" by (intro zero_value_leading)
      with nx ds have "(of_char (hd ds) :: nat) = 48" by simp
      with lead have "length ds = 1" by simp
      with ds nx show False by simp
    qed
    moreover from v z cd have "(of_char c :: nat) = 48 + n" by simp
    then have "c = char_of (48 + n)" by (rule char_of_code)
    ultimately show ?thesis
      using True ds by (subst string_of_nat.simps) simp
  next
    case False
    have nx: "xs \<noteq> []"
    proof
      assume "xs = []"
      with v cl have "n < 10" by (simp add: nat_of_decimal_def)
      with False show False by simp
    qed
    have "(of_char (hd xs) :: nat) \<noteq> 48"
    proof
      assume "(of_char (hd xs) :: nat) = 48"
      with nx ds have "(of_char (hd ds) :: nat) = 48" by simp
      with lead have "length ds = 1" by simp
      with ds nx show False by simp
    qed
    with nx xs q have "decimal_numeral xs (n div 10)"
      by (simp add: decimal_numeral_def)
    with False "1.IH" have x: "xs = string_of_nat (n div 10)" by simp
    from cd m have "(of_char c :: nat) = 48 + n mod 10" by simp
    then have "c = char_of (48 + n mod 10)" by (rule char_of_code)
    with x False ds show ?thesis
      by (subst string_of_nat.simps) simp
  qed
qed

lemma example_failed_fields:
  "compile_error (example_failed i) = Some (new_CompilationError i example_error)"
  "function_name (example_failed i) j = (if j = 2 then Some ''add'' else None)"
  "func_index (new_CompilationError i example_error) = i"
  "error_msg (result (new_CompilationError i example_error)) = ''type mismatch''"
  by (simp_all add: example_failed_def example_named_def new_CompilationStateImpl_def
      new_CompilationError_def VoidResult_ErrorFrom_def example_error_def VoidResult_Error_def)

lemma digit_chars:
  "char_of (48 :: nat) = CHR ''0''" "char_of (49 :: nat) = CHR ''1''"
  "char_of (50 :: nat) = CHR ''2''" "char_of (51 :: nat) = CHR ''3''"
  "char_of (52 :: nat) = CHR ''4''" "char_of (53 :: nat) = CHR ''5''"
  "char_of (54 :: nat) = CHR ''6''" "char_of (55 :: nat) = CHR ''7''"
  "char_of (56 :: nat) = CHR ''8''" "char_of (57 :: nat) = CHR ''9''"
  by code_simp+

lemma string_of_nat_17: "string_of_nat 17 = ''17''"
  by (simp add: string_of_nat.simps digit_chars)

lemma string_of_nat_0: "string_of_nat 0 = ''0''"
  by (simp add: string_of_nat.simps digit_chars)

lemma string_of_nat_max: "string_of_nat 4294967295 = ''4294967295''"
  by (simp add: string_of_nat.simps digit_chars)

lemma counters_inv_cong:
  assumes "counters_inv s" and "compile_mode s' = compile_mode s"
    and "outstanding_baseline_units s' = outstanding_baseline_units s"
    and "outstanding_tiering_units s' = outstanding_tiering_units s"
  shows "counters_inv s'"
  using assms by (simp add: counters_inv_def)

lemma RestartBackgroundTasks_counters:
  assumes "RestartBackgroundTasks m s = Inr s'"
  shows "compile_mode s' = compile_mode s \<and>
         outstanding_baseline_units s' = outstanding_baseline_units s \<and>
         outstanding_tiering_units s' = outstanding_tiering_units s"
  using assms
  by (auto simp: RestartBackgroundTasks_def spawn_background_tasks_eq Let_def split: if_splits)

lemma AddCompilationUnits_counters:
  assumes "AddCompilationUnits bs ts s = Inr s'"
  shows "compile_mode s' = compile_mode s \<and>
         outstanding_baseline_units s' = outstanding_baseline_units s \<and>
         outstanding_tiering_units s' = outstanding_tiering_units s"
  using assms
  by (auto simp: AddCompilationUnits_def split: if_splits sum.splits
      dest!: RestartBackgroundTasks_counters)

lemma SetError_counters:
  assumes "SetError i r s = Inr s'"
  shows "compile_mode s' = compile_mode s \<and>
         outstanding_baseline_units s' = outstanding_baseline_units s \<and>
         outstanding_tiering_units s' = outstanding_tiering_units s"
  using assms
  by (auto simp: SetError_def PostTask_def split: if_splits option.splits)

lemma Abort_counters:
  assumes "Abort s = Inr s'"
  shows "compile_mode s' = compile_mode s \<and>
         outstanding_baseline_units s' = outstanding_baseline_units s \<and>
         outstanding_tiering_units s' = outstanding_tiering_units s"
proof -
  from assms obtain s1 where
    s1: "SetError 0 (VoidResult_Error 0 ''Compilation aborted'') s = Inr s1"
    by (auto simp: Abort_def split: sum.splits)
  from SetError_counters [OF s1] assms s1 show ?thesis
    by (auto simp: Abort_def PostTask_def background_CancelAndWait_def Let_def
        split: if_splits)
qed

lemma step_counters_inv:
  assumes st: "step x s = Inr s'" and inv: "counters_inv s"
  shows "counters_inv s'"
proof (cases x)
  case (DoSetNumberOfFunctionsToCompile n)
  with st show ?thesis
    by (auto simp: SetNumberOfFunctionsToCompile_def counters_inv_def Let_def
        split: if_splits)
next
  case (DoAddCallback c)
  with st inv show ?thesis by (auto simp: AddCallback_def counters_inv_def)
next
  case (DoAddCompilationUnits bs ts)
  with st have "AddCompilationUnits bs ts s = Inr s'" by simp
  from AddCompilationUnits_counters [OF this] inv show ?thesis
    by (simp add: counters_inv_def)
next
  case DoGetNextCompilationUnit
  with st inv show ?thesis
    by (auto simp: GetNextCompilationUnit_def counters_inv_def split: if_splits)
next
  case DoGetNextExecutedUnit
  with st inv show ?thesis
    by (auto simp: GetNextExecutedUnit_def counters_inv_def split: if_splits)
next
  case DoOnFinishedUnit
  with st inv show ?thesis
    by (auto simp: OnFinishedUnit_def NotifyOnEvent_def counters_inv_def Let_def
        split: if_splits)
next
  case (DoScheduleUnitForFinishing u tier)
  with st inv show ?thesis
    by (auto simp: ScheduleUnitForFinishing_def ScheduleFinisherTask_def PostTask_def
        counters_inv_def Let_def split: if_splits)
next
  case DoOnBackgroundTaskStopped
  with st inv show ?thesis
    by (auto simp: OnBackgroundTaskStopped_def counters_inv_def split: if_splits)
next
  case (DoRestartBackgroundTasks m)
  with st have "RestartBackgroundTasks m s = Inr s'" by simp
  from RestartBackgroundTasks_counters [OF this] inv show ?thesis
    by (simp add: counters_inv_def)
next
  case (DoSetFinisherIsRunning v)
  with st inv show ?thesis
    by (auto simp: SetFinisherIsRunning_def counters_inv_def split: if_splits)
next
  case DoScheduleFinisherTask
  with st inv show ?thesis
    by (auto simp: ScheduleFinisherTask_def PostTask_def counters_inv_def)
next
  case DoAbort
  with st have "Abort s = Inr s'" by simp
  from Abort_counters [OF this] inv show ?thesis
    by (simp add: counters_inv_def)
next
  case (DoSetError i r)
  with st have "SetError i r s = Inr s'" by simp
  from SetError_counters [OF this] inv show ?thesis
    by (simp add: counters_inv_def)
next
  case DoCancelAndWait
  with st inv show ?thesis
    by (auto simp: CancelAndWait_def background_CancelAndWait_def
        foreground_CancelAndWait_def counters_inv_def)
next
  case DoRunNotifyFailedTask
  with st inv show ?thesis
    by (auto simp: RunNotifyFailedTask_def NotifyFailedTask_Run_def NotifyOnEvent_def
        counters_inv_def Let_def split: if_splits sum.splits)
qed

lemma run_counters_inv:
  "run xs s = Inr s' \<Longrightarrow> counters_inv s \<Longrightarrow> counters_inv s'"
proof (induction xs arbitrary: s)
  case Nil
  then show ?case by simp
next
  case (Cons x xs)
  from Cons.prems(1) obtain s1 where
    one: "step x s = Inr s1" and rest: "run xs s1 = Inr s'"
    by (auto split: sum.splits)
  from one Cons.prems(2) have "counters_inv s1" by (rule step_counters_inv)
  with rest show ?case by (rule Cons.IH)
qed

lemma example_tiering_fields:
  "dcheck_is_on example_tiering" "compile_mode example_tiering = kTiering"
  "compile_error example_tiering = None" "callbacks example_tiering = []"
  "outstanding_baseline_units example_tiering = 0"
  "outstanding_tiering_units example_tiering = 0"
  "foreground_tasks example_tiering = []" "notified example_tiering = []"
  by (simp_all add: example_tiering_def new_CompilationStateImpl_def)

lemma example_tiering_run:
  "n \<noteq> 0 \<Longrightarrow> n \<noteq> 1 \<Longrightarrow>
   run [DoSetNumberOfFunctionsToCompile n, DoOnFinishedUnit] example_tiering
     = Inr (example_tiering\<lparr>outstanding_baseline_units := n - 1,
                             outstanding_tiering_units := n\<rparr>)"
  by (simp add: SetNumberOfFunctionsToCompile_def OnFinishedUnit_def dcheck_fails_def
      failed_def Let_def word_gt_0 example_tiering_fields)

lemma example_tiering_run_one:
  "run [DoSetNumberOfFunctionsToCompile 1, DoOnFinishedUnit] example_tiering
     = Inr (example_tiering\<lparr>outstanding_baseline_units := 0,
              outstanding_tiering_units := 1,
              notified := [(kFinishedBaselineCompilation, None, [])]\<rparr>)"
  by (simp add: SetNumberOfFunctionsToCompile_def OnFinishedUnit_def NotifyOnEvent_def
      dcheck_fails_def failed_def Let_def example_tiering_fields)

lemma AddCallback_inv:
  assumes "delivery_inv s" and "\<not> list_ex is_final_event (delivered s)"
  shows "delivery_inv (AddCallback c s)"
  using assms
  by (auto simp: delivery_inv_def delivered_def AddCallback_def list_ex_iff)

lemma step_delivery_inv_in_time:
  assumes st: "step x s = Inr s'" and inv: "delivery_inv s"
    and ok: "is_AddCallback x \<longrightarrow> \<not> list_ex is_final_event (delivered s)"
  shows "delivery_inv s'"
proof (cases "is_AddCallback x")
  case False
  with st inv show ?thesis by (rule step_delivery_inv)
next
  case True
  then obtain c where x: "x = DoAddCallback c" by (cases x) auto
  from True ok have "\<not> list_ex is_final_event (delivered s)" by simp
  with inv have "delivery_inv (AddCallback c s)" by (rule AddCallback_inv)
  with st x show ?thesis by simp
qed

lemma run_delivery_inv_in_time:
  "run xs s = Inr s' \<Longrightarrow> delivery_inv s \<Longrightarrow> registered_in_time xs s \<Longrightarrow> delivery_inv s'"
proof (induction xs arbitrary: s)
  case Nil
  then show ?case by simp
next
  case (Cons x xs)
  from Cons.prems(1) obtain s1 where
    one: "step x s = Inr s1" and rest: "run xs s1 = Inr s'"
    by (auto split: sum.splits)
  from Cons.prems(3) one
  have ok: "is_AddCallback x \<longrightarrow> \<not> list_ex is_final_event (delivered s)"
    and later: "registered_in_time xs s1"
    by simp_all
  from one Cons.prems(2) ok have "delivery_inv s1" by (rule step_delivery_inv_in_time)
  with rest show ?case using later by (rule Cons.IH)
qed

lemma SetNumberOfFunctionsToCompile_regular:
  "\<not> (dcheck_is_on s \<and> failed s) \<Longrightarrow> compile_mode s = kRegular \<Longrightarrow>
   SetNumberOfFunctionsToCompile n s = Inr (s\<lparr>outstanding_baseline_units := n\<rparr>)"
  by (simp add: SetNumberOfFunctionsToCompile_def dcheck_fails_def Let_def)

lemma OnFinishedUnit_regular_last:
  "compile_mode s = kRegular \<Longrightarrow> outstanding_tiering_units s = 0 \<Longrightarrow>
   outstanding_baseline_units s = 1 \<Longrightarrow>
   OnFinishedUnit s =
     Inr (s\<lparr>outstanding_baseline_units := 0,
            notified := notified s @ [(kFinishedBaselineCompilation, None, callbacks s),
                                      (kFinishedTopTierCompilation, None, callbacks s)],
            callbacks := []\<rparr>)"
  by (simp add: OnFinishedUnit_def NotifyOnEvent_def dcheck_fails_def Let_def)

lemma SetError_first:
  "compile_error s = None \<Longrightarrow> result_failed r \<Longrightarrow>
   SetError i r s =
     Inr (s\<lparr>compile_error := Some (new_CompilationError i r),
            foreground_tasks := foreground_tasks s @ [NotifyFailedTask]\<rparr>)"
  by (simp add: SetError_def PostTask_def dcheck_fails_def)

lemma RunNotifyFailedTask_latched:
  "compile_error s = Some e \<Longrightarrow> NotifyFailedTask \<in> set (foreground_tasks s) \<Longrightarrow>
   RunNotifyFailedTask s =
     Inr (NotifyOnEvent kFailedCompilation (Some (projr (GetCompileError s)))
            (s\<lparr>foreground_tasks := remove1 NotifyFailedTask (foreground_tasks s)\<rparr>))"
  by (simp add: RunNotifyFailedTask_def NotifyFailedTask_Run_def GetCompileError_def)

lemmas example_steps =
  SetNumberOfFunctionsToCompile_regular OnFinishedUnit_regular_last SetError_first
  RunNotifyFailedTask_latched AddCallback_def failed_def example_regular_fields

lemma example_error_failed: "result_failed example_error"
  by (simp add: example_error_def VoidResult_Error_def)

lemma example_run_delivers:
  "delivered_by example_run example_regular =
     Inr [kFinishedBaselineCompilation, kFinishedTopTierCompilation]"
  unfolding example_run_def delivered_by_def
  by (simp add: example_steps example_error_failed NotifyOnEvent_def delivered_def Let_def)

lemma example_run_in_time: "registered_in_time example_run example_regular"
  unfolding example_run_def
  by (simp add: example_steps example_error_failed delivered_def)

subsection \<open>C4: \<^verbatim>\<open>baseline_compilation_finished\<close>\<close>

text \<open>
  C4: in every state that a compilation state can be in, that is every state reached from
  the constructor by any sequence of operations, in either compile mode and whatever values
  the counters were given, \<^verbatim>\<open>baseline_compilation_finished()\<close> is true if and only if
  \<^verbatim>\<open>outstanding_baseline_units_\<close> is zero. The second disjunct of the code (tiering mode and
  tiering counter zero) never decides: the counters are private, and the operations keep
  the tiering counter from reaching zero before the baseline counter has.
\<close>

theorem baseline_compilation_finished_iff:
  assumes "run ops (new_CompilationStateImpl dchecks names tier_up origin_is_wasm num_tasks
                      threads) = Inr s"
  shows "baseline_compilation_finished s \<longleftrightarrow> outstanding_baseline_units s = 0"
proof -
  have "counters_inv (new_CompilationStateImpl dchecks names tier_up origin_is_wasm num_tasks
                        threads)"
    by (simp add: counters_inv_def new_CompilationStateImpl_def)
  with assms have "counters_inv s" by (rule run_counters_inv)
  then show ?thesis
    by (auto simp: counters_inv_def baseline_compilation_finished_def)
qed

theorem baseline_compilation_finished_iff_witness:
  "(\<exists>s. run [DoSetNumberOfFunctionsToCompile 2, DoOnFinishedUnit] example_tiering = Inr s \<and>
        outstanding_baseline_units s = 1 \<and> outstanding_tiering_units s = 2 \<and>
        \<not> baseline_compilation_finished s) \<and>
   (\<exists>s. run [DoSetNumberOfFunctionsToCompile 1, DoOnFinishedUnit] example_tiering = Inr s \<and>
        outstanding_baseline_units s = 0 \<and> outstanding_tiering_units s = 1 \<and>
        baseline_compilation_finished s)"
proof -
  let ?a = "example_tiering\<lparr>outstanding_baseline_units := 1, outstanding_tiering_units := 2\<rparr>"
  let ?b = "example_tiering\<lparr>outstanding_baseline_units := 0,
              outstanding_tiering_units := 1,
              notified := [(kFinishedBaselineCompilation, None, [])]\<rparr>"
  have ra: "run [DoSetNumberOfFunctionsToCompile 2, DoOnFinishedUnit] example_tiering = Inr ?a"
    using example_tiering_run [of 2] by simp
  have rb: "run [DoSetNumberOfFunctionsToCompile 1, DoOnFinishedUnit] example_tiering = Inr ?b"
    by (rule example_tiering_run_one)
  from baseline_compilation_finished_iff [OF ra [unfolded example_tiering_def]]
  have a: "\<not> baseline_compilation_finished ?a"
    by (simp add: example_tiering_def)
  from baseline_compilation_finished_iff [OF rb [unfolded example_tiering_def]]
  have b: "baseline_compilation_finished ?b"
    by (simp add: example_tiering_def)
  have "outstanding_baseline_units ?a = 1 \<and> outstanding_tiering_units ?a = 2"
    and "outstanding_baseline_units ?b = 0 \<and> outstanding_tiering_units ?b = 1"
    by simp_all
  with ra rb a b show ?thesis by blast
qed

subsection \<open>C5: \<^verbatim>\<open>ScheduleUnitForFinishing\<close>\<close>

text \<open>
  C5 as stated: a unit of tier Optimized is appended to the finished tiering units whatever
  the compile mode. The code tests the mode as well: in regular mode a unit of tier
  Optimized goes to the finished baseline units.
\<close>

theorem ScheduleUnitForFinishing_counterexample:
  "compile_mode example_regular = kRegular \<and>
   tiering_finish_units (ScheduleUnitForFinishing example_unit kOptimized example_regular)
     = [] \<and>
   baseline_finish_units (ScheduleUnitForFinishing example_unit kOptimized example_regular)
     = [example_unit]"
  by (simp add: ScheduleUnitForFinishing_def ScheduleFinisherTask_def PostTask_def failed_def
      Let_def example_regular_def new_CompilationStateImpl_def)

text \<open>
  C5 as amended: the unit is appended to the finished tiering units when the mode is
  tiering and the tier is Optimized, and to the finished baseline units otherwise; the
  other list is unchanged. When no finisher is running and no error is latched, the flag
  is set and exactly one finisher task is posted; otherwise the flag and the posted tasks
  are unchanged.
\<close>

theorem ScheduleUnitForFinishing_effect:
  "(let s' = ScheduleUnitForFinishing unit tier s in
     (if compile_mode s = kTiering \<and> tier = kOptimized
      then tiering_finish_units s' = tiering_finish_units s @ [unit] \<and>
           baseline_finish_units s' = baseline_finish_units s
      else baseline_finish_units s' = baseline_finish_units s @ [unit] \<and>
           tiering_finish_units s' = tiering_finish_units s) \<and>
     (if \<not> finisher_is_running s \<and> \<not> failed s
      then finisher_is_running s' \<and>
           foreground_tasks s' = foreground_tasks s @ [FinishCompileTask]
      else finisher_is_running s' = finisher_is_running s \<and>
           foreground_tasks s' = foreground_tasks s) \<and>
     worker_tasks s' = worker_tasks s)"
  by (simp add: ScheduleUnitForFinishing_def ScheduleFinisherTask_def PostTask_def failed_def
      Let_def)

theorem ScheduleUnitForFinishing_effect_witness:
  "compile_mode example_tiering = kTiering \<and>
   \<not> finisher_is_running example_tiering \<and> \<not> failed example_tiering \<and>
   tiering_finish_units (ScheduleUnitForFinishing example_unit kOptimized example_tiering)
     = [example_unit] \<and>
   finisher_is_running (ScheduleUnitForFinishing example_unit kOptimized example_tiering) \<and>
   foreground_tasks (ScheduleUnitForFinishing example_unit kOptimized example_tiering)
     = [FinishCompileTask]"
  using ScheduleUnitForFinishing_effect [of example_unit kOptimized example_tiering]
  by (simp add: Let_def failed_def example_tiering_def new_CompilationStateImpl_def)

subsection \<open>C7: \<^verbatim>\<open>SetNumberOfFunctionsToCompile\<close>\<close>

text \<open>
  C7 as stated: the call fails when compilation units already exist in the state or when an
  error is latched. The code checks one thing, \<^verbatim>\<open>DCHECK(!failed())\<close>: with a unit pending
  the call succeeds and sets the counter, and in a build without DCHECK it succeeds also
  with an error latched.
\<close>

theorem SetNumberOfFunctionsToCompile_counterexample:
  "baseline_compilation_units
     (example_regular\<lparr>baseline_compilation_units := [example_unit]\<rparr>) \<noteq> [] \<and>
   SetNumberOfFunctionsToCompile 5
     (example_regular\<lparr>baseline_compilation_units := [example_unit]\<rparr>)
     = Inr (example_regular\<lparr>baseline_compilation_units := [example_unit],
                            outstanding_baseline_units := 5\<rparr>) \<and>
   failed (example_release\<lparr>compile_error := Some (new_CompilationError 0 example_error)\<rparr>) \<and>
   SetNumberOfFunctionsToCompile 5
     (example_release\<lparr>compile_error := Some (new_CompilationError 0 example_error)\<rparr>)
     = Inr (example_release\<lparr>compile_error := Some (new_CompilationError 0 example_error),
                            outstanding_baseline_units := 5,
                            outstanding_tiering_units := 5\<rparr>)"
  by (simp add: SetNumberOfFunctionsToCompile_def dcheck_fails_def failed_def Let_def
      example_regular_def example_release_def new_CompilationStateImpl_def)

text \<open>
  C7 as amended: the call sets the baseline counter to \<open>n\<close> and, in tiering mode, the
  tiering counter to \<open>n\<close> (in regular mode the tiering counter keeps its value). It fails
  exactly when DCHECK is on and an error is latched, and succeeds otherwise, also when
  compilation units already exist.
\<close>

theorem SetNumberOfFunctionsToCompile_effect:
  "SetNumberOfFunctionsToCompile n s =
     (if dcheck_is_on s \<and> failed s then Inl DCheckFailure
      else Inr (s\<lparr>outstanding_baseline_units := n,
                  outstanding_tiering_units :=
                    (if compile_mode s = kTiering then n else outstanding_tiering_units s)\<rparr>))"
  by (simp add: SetNumberOfFunctionsToCompile_def dcheck_fails_def Let_def)

theorem SetNumberOfFunctionsToCompile_effect_witness:
  "\<not> (dcheck_is_on example_tiering \<and> failed example_tiering) \<and>
   SetNumberOfFunctionsToCompile 3 example_tiering =
     Inr (example_tiering\<lparr>outstanding_baseline_units := 3, outstanding_tiering_units := 3\<rparr>)"
  using SetNumberOfFunctionsToCompile_effect [of 3 example_tiering]
  by (simp add: failed_def example_tiering_def new_CompilationStateImpl_def)

subsection \<open>C3: \<^verbatim>\<open>OnFinishedUnit\<close>\<close>

text \<open>
  C3: every call of \<^verbatim>\<open>OnFinishedUnit\<close> that returns decrements exactly one of the two
  counters. \<^verbatim>\<open>kFinishedBaselineCompilation\<close> is notified exactly when the call decremented
  the baseline counter to zero; \<^verbatim>\<open>kFinishedTopTierCompilation\<close> exactly when the call
  decremented the tiering counter to zero in tiering mode, or the baseline counter to zero
  in regular mode, and then in the same call, after the baseline event. The call stops only
  at a DCHECK, with DCHECK on, when the counter it would decrement is already zero or, in
  regular mode, when the tiering counter is not zero.
\<close>

theorem OnFinishedUnit_counters_and_events:
  "case OnFinishedUnit s of
     Inl e \<Rightarrow>
       dcheck_is_on s \<and>
       ((compile_mode s = kRegular \<and>
           (outstanding_tiering_units s \<noteq> 0 \<or> outstanding_baseline_units s = 0)) \<or>
        (compile_mode s = kTiering \<and> outstanding_baseline_units s = 0 \<and>
           outstanding_tiering_units s = 0))
   | Inr s' \<Rightarrow>
       ((outstanding_baseline_units s' = outstanding_baseline_units s - 1 \<and>
         outstanding_tiering_units s' = outstanding_tiering_units s) \<or>
        (outstanding_tiering_units s' = outstanding_tiering_units s - 1 \<and>
         outstanding_baseline_units s' = outstanding_baseline_units s)) \<and>
       (\<exists>new. notified s' = notified s @ new \<and> distinct (map fst new) \<and>
          (kFinishedBaselineCompilation \<in> set (map fst new) \<longleftrightarrow>
             outstanding_baseline_units s' = outstanding_baseline_units s - 1 \<and>
             outstanding_baseline_units s' = 0) \<and>
          (kFinishedTopTierCompilation \<in> set (map fst new) \<longleftrightarrow>
             (compile_mode s = kTiering \<and>
              outstanding_tiering_units s' = outstanding_tiering_units s - 1 \<and>
              outstanding_tiering_units s' = 0) \<or>
             (compile_mode s = kRegular \<and>
              outstanding_baseline_units s' = outstanding_baseline_units s - 1 \<and>
              outstanding_baseline_units s' = 0)) \<and>
          kFailedCompilation \<notin> set (map fst new) \<and>
          (compile_mode s = kRegular \<and> new \<noteq> [] \<longrightarrow>
             map fst new = [kFinishedBaselineCompilation, kFinishedTopTierCompilation]))"
  apply (cases "compile_mode s")
   apply (auto simp: OnFinishedUnit_def NotifyOnEvent_def dcheck_fails_def Let_def word_gt_0
      split: sum.splits if_splits)
  done

theorem OnFinishedUnit_counters_and_events_witness:
  "\<exists>s'. OnFinishedUnit (example_regular\<lparr>outstanding_baseline_units := 1, callbacks := [5]\<rparr>)
            = Inr s' \<and>
         compile_mode (example_regular\<lparr>outstanding_baseline_units := 1, callbacks := [5]\<rparr>)
            = kRegular \<and>
         outstanding_baseline_units s' = 0 \<and>
         map fst (notified s') = [kFinishedBaselineCompilation, kFinishedTopTierCompilation]"
proof -
  have "OnFinishedUnit (example_regular\<lparr>outstanding_baseline_units := 1, callbacks := [5]\<rparr>)
     = Inr (example_regular\<lparr>outstanding_baseline_units := 0, callbacks := [],
          notified := [(kFinishedBaselineCompilation, None, [5]),
                       (kFinishedTopTierCompilation, None, [5])]\<rparr>)"
    by (simp add: OnFinishedUnit_def NotifyOnEvent_def dcheck_fails_def Let_def
        example_regular_def new_CompilationStateImpl_def)
  with OnFinishedUnit_counters_and_events
         [of "example_regular\<lparr>outstanding_baseline_units := 1, callbacks := [5]\<rparr>"]
  show ?thesis
    by (simp add: example_regular_def new_CompilationStateImpl_def)
qed

subsection \<open>C8: \<^verbatim>\<open>CompilationUnitBuilder::Commit\<close>\<close>

text \<open>
  C8: committing an empty builder returns false and leaves the builder and the state as
  they were. A commit that returns tells by its result whether the builder held units;
  when it did, the units are appended to the pending units of the state and both buffers
  of the builder are empty afterwards. In either case a second commit, with no unit added
  in between, returns false and changes nothing.
\<close>

theorem Commit_empty_and_repeated:
  "(baseline_units b = [] \<and> tiering_units b = [] \<longrightarrow> Commit b s = Inr (False, b, s)) \<and>
   (\<forall>r b' s'. Commit b s = Inr (r, b', s') \<longrightarrow>
      r = (\<not> (baseline_units b = [] \<and> tiering_units b = [])) \<and>
      (r \<longrightarrow> baseline_units b' = [] \<and> tiering_units b' = [] \<and>
             baseline_compilation_units s' = baseline_compilation_units s @ baseline_units b) \<and>
      Commit b' s' = Inr (False, b', s'))"
  by (auto simp: Commit_def Clear_def split: if_splits sum.splits
      dest: AddCompilationUnits_baseline)

theorem Commit_empty_and_repeated_witness:
  "baseline_units (Clear example_builder) = [] \<and> tiering_units (Clear example_builder) = [] \<and>
   Commit (Clear example_builder) example_regular
     = Inr (False, Clear example_builder, example_regular) \<and>
   (\<exists>s'. Commit example_builder example_regular = Inr (True, Clear example_builder, s') \<and>
         baseline_compilation_units s' = [example_unit] \<and>
         Commit (Clear example_builder) s' = Inr (False, Clear example_builder, s'))"
proof -
  have e: "baseline_units (Clear example_builder) = [] \<and>
           tiering_units (Clear example_builder) = []"
    by (simp add: Clear_def)
  have r: "RestartBackgroundTasks size_t_max
             (example_regular\<lparr>baseline_compilation_units := [example_unit]\<rparr>)
           = Inr (example_regular\<lparr>baseline_compilation_units := [example_unit],
                   num_background_tasks := 1, worker_tasks := [BackgroundCompileTask]\<rparr>)"
    by (simp add: RestartBackgroundTasks_def spawn_background_tasks_eq dcheck_fails_def
        failed_def size_t_max_def Let_def example_regular_def new_CompilationStateImpl_def)
  have c: "Commit example_builder example_regular
           = Inr (True, Clear example_builder,
                  example_regular\<lparr>baseline_compilation_units := [example_unit],
                    num_background_tasks := 1, worker_tasks := [BackgroundCompileTask]\<rparr>)"
    using r
    by (simp add: Commit_def AddCompilationUnits_def dcheck_fails_def example_builder_def
        example_regular_def new_CompilationStateImpl_def)
  note again = Commit_empty_and_repeated
         [of example_builder example_regular, THEN conjunct2, rule_format, OF c]
  have b: "baseline_compilation_units
             (example_regular\<lparr>baseline_compilation_units := [example_unit],
                num_background_tasks := 1, worker_tasks := [BackgroundCompileTask]\<rparr>)
           = [example_unit]"
    by simp
  from Commit_empty_and_repeated
         [of "Clear example_builder" example_regular, THEN conjunct1, rule_format, OF e]
       e c again b
  show ?thesis by blast
qed

subsection \<open>C9: \<^verbatim>\<open>GetCompileError\<close>\<close>

text \<open>
  C9: with an error latched for function index \<open>i\<close> with message \<open>m\<close>,
  \<^verbatim>\<open>GetCompileError\<close> returns an error result with the offset of the latched error and the
  message \<^verbatim>\<open>Compiling wasm function "<name>" failed: <m>\<close>, where the name is the one the
  module records for \<open>i\<close> when there is one, and otherwise \<^verbatim>\<open>wasm-function[\<close>, the decimal
  numeral of \<open>i\<close> and \<^verbatim>\<open>]\<close>. The decimal numeral of a number is one string only
  (\<open>decimal_numeral_unique\<close>).
\<close>

theorem GetCompileError_message:
  assumes "compile_error s = Some e"
  shows "\<exists>r digits. GetCompileError s = Inr r \<and> result_failed r \<and>
           error_offset r = error_offset (result e) \<and>
           decimal_numeral digits (unat (func_index e)) \<and>
           error_msg r =
             ''Compiling wasm function '' @ [CHR 0x22] @
             (case function_name s (func_index e) of
                Some name \<Rightarrow> name
              | None \<Rightarrow> ''wasm-function['' @ digits @ '']'') @
             [CHR 0x22] @ '' failed: '' @ error_msg (result e)"
proof -
  have "decimal_numeral (string_of_nat (unat (func_index e))) (unat (func_index e))"
    by (rule string_of_nat_is_decimal)
  with assms show ?thesis
    by (simp add: GetCompileError_def VoidResult_Error_def) blast
qed

theorem GetCompileError_message_witness:
  "compile_error (example_failed 2) = Some (new_CompilationError 2 example_error) \<and>
   (\<exists>r. GetCompileError (example_failed 2) = Inr r \<and>
        error_msg r =
          ''Compiling wasm function '' @ [CHR 0x22] @ ''add'' @ [CHR 0x22] @
          '' failed: type mismatch'') \<and>
   compile_error (example_failed 17) = Some (new_CompilationError 17 example_error) \<and>
   (\<exists>r. GetCompileError (example_failed 17) = Inr r \<and>
        error_msg r =
          ''Compiling wasm function '' @ [CHR 0x22] @ ''wasm-function[17]'' @ [CHR 0x22] @
          '' failed: type mismatch'') \<and>
   (\<exists>r. GetCompileError (example_failed 0) = Inr r \<and>
        error_msg r =
          ''Compiling wasm function '' @ [CHR 0x22] @ ''wasm-function[0]'' @ [CHR 0x22] @
          '' failed: type mismatch'') \<and>
   (\<exists>r. GetCompileError (example_failed 4294967295) = Inr r \<and>
        error_msg r =
          ''Compiling wasm function '' @ [CHR 0x22] @ ''wasm-function[4294967295]'' @
          [CHR 0x22] @ '' failed: type mismatch'')"
proof -
  note d17 = string_of_nat_17 and d0 = string_of_nat_0 and dm = string_of_nat_max
  have u: "unat (17 :: uint32_t) = 17" "unat (0 :: uint32_t) = 0"
    "unat (4294967295 :: uint32_t) = 4294967295"
    by simp_all
  have a: "\<exists>r. GetCompileError (example_failed 2) = Inr r \<and>
        error_msg r =
          ''Compiling wasm function '' @ [CHR 0x22] @ ''add'' @ [CHR 0x22] @
          '' failed: type mismatch''"
    using GetCompileError_message [OF example_failed_fields(1) [of 2]]
    unfolding example_failed_fields by auto
  have b: "\<exists>r. GetCompileError (example_failed i) = Inr r \<and>
        error_msg r =
          ''Compiling wasm function '' @ [CHR 0x22] @
          ''wasm-function['' @ string_of_nat (unat i) @ '']'' @ [CHR 0x22] @
          '' failed: type mismatch''" if "i \<noteq> 2" for i
  proof -
    from GetCompileError_message [OF example_failed_fields(1) [of i]] that
    obtain r digits where g: "GetCompileError (example_failed i) = Inr r"
      and dn: "decimal_numeral digits (unat i)"
      and m: "error_msg r =
          ''Compiling wasm function '' @ [CHR 0x22] @
          ''wasm-function['' @ digits @ '']'' @ [CHR 0x22] @ '' failed: type mismatch''"
      unfolding example_failed_fields by auto
    from dn have "digits = string_of_nat (unat i)" by (rule decimal_numeral_unique)
    with g m show ?thesis by blast
  qed
  have n: "(17 :: uint32_t) \<noteq> 2" "(0 :: uint32_t) \<noteq> 2" "(4294967295 :: uint32_t) \<noteq> 2"
    by simp_all
  from a b [OF n(1)] b [OF n(2)] b [OF n(3)] example_failed_fields(1)
  show ?thesis
    unfolding u d17 d0 dm by simp
qed

subsection \<open>C10: which counter \<^verbatim>\<open>OnFinishedUnit\<close> decrements\<close>

text \<open>
  C10: \<^verbatim>\<open>OnFinishedUnit\<close> takes no unit; it decrements the tiering counter exactly when the
  mode is tiering and the baseline counter is zero, whatever unit was finished. So a call
  that changes the tiering counter starts and ends with the baseline counter at zero, and
  in any sequence of calls that changes the tiering counter there is an earlier moment at
  which the baseline counter is zero and the tiering counter still has its first value.
\<close>

theorem OnFinishedUnit_baseline_drains_first:
  "(\<forall>s'. OnFinishedUnit s = Inr s' \<longrightarrow>
      ((outstanding_tiering_units s' = outstanding_tiering_units s - 1 \<and>
        outstanding_baseline_units s' = outstanding_baseline_units s)
         \<longleftrightarrow> (compile_mode s = kTiering \<and> outstanding_baseline_units s = 0)) \<and>
      (outstanding_tiering_units s' \<noteq> outstanding_tiering_units s \<longrightarrow>
         outstanding_baseline_units s = 0 \<and> outstanding_baseline_units s' = 0)) \<and>
   (\<forall>n s'. OnFinishedUnit_times n s = Inr s' \<and>
       outstanding_tiering_units s' \<noteq> outstanding_tiering_units s \<longrightarrow>
       (\<exists>k<n. \<exists>t. OnFinishedUnit_times k s = Inr t \<and> outstanding_baseline_units t = 0 \<and>
          outstanding_tiering_units t = outstanding_tiering_units s))"
proof -
  have one: "\<forall>s'. OnFinishedUnit s = Inr s' \<longrightarrow>
      ((outstanding_tiering_units s' = outstanding_tiering_units s - 1 \<and>
        outstanding_baseline_units s' = outstanding_baseline_units s)
         \<longleftrightarrow> (compile_mode s = kTiering \<and> outstanding_baseline_units s = 0)) \<and>
      (outstanding_tiering_units s' \<noteq> outstanding_tiering_units s \<longrightarrow>
         outstanding_baseline_units s = 0 \<and> outstanding_baseline_units s' = 0)"
    by (cases "compile_mode s")
      (auto simp: OnFinishedUnit_def NotifyOnEvent_def Let_def split: if_splits)
  show ?thesis using one OnFinishedUnit_times_drains by blast
qed

theorem OnFinishedUnit_baseline_drains_first_witness:
  "\<exists>s'. OnFinishedUnit_times 2
           (example_tiering\<lparr>outstanding_baseline_units := 1, outstanding_tiering_units := 1\<rparr>)
          = Inr s' \<and>
        outstanding_tiering_units s' \<noteq>
          outstanding_tiering_units
            (example_tiering\<lparr>outstanding_baseline_units := 1, outstanding_tiering_units := 1\<rparr>) \<and>
        (\<exists>k<2. \<exists>t. OnFinishedUnit_times k
             (example_tiering\<lparr>outstanding_baseline_units := 1, outstanding_tiering_units := 1\<rparr>)
             = Inr t \<and> outstanding_baseline_units t = 0 \<and> outstanding_tiering_units t = 1)"
proof -
  have two: "OnFinishedUnit_times (Suc (Suc 0))
           (example_tiering\<lparr>outstanding_baseline_units := 1, outstanding_tiering_units := 1\<rparr>)
      = Inr (example_tiering\<lparr>outstanding_baseline_units := 0, outstanding_tiering_units := 0,
               notified := [(kFinishedBaselineCompilation, None, []),
                            (kFinishedTopTierCompilation, None, [])]\<rparr>)"
    by (simp add: OnFinishedUnit_def NotifyOnEvent_def dcheck_fails_def Let_def
        example_tiering_def new_CompilationStateImpl_def)
  have n2: "(2::nat) = Suc (Suc 0)" by simp
  from OnFinishedUnit_baseline_drains_first
         [of "example_tiering\<lparr>outstanding_baseline_units := 1, outstanding_tiering_units := 1\<rparr>"]
       two
  show ?thesis
    unfolding n2
    by (simp add: example_tiering_def new_CompilationStateImpl_def)
qed

subsection \<open>C1: \<^verbatim>\<open>SetError\<close>\<close>



subsection \<open>C6: \<^verbatim>\<open>RestartBackgroundTasks\<close>\<close>

text \<open>
  C6 as stated: in every state the call spawns \<open>min(max, pending units, max_workers -
  running)\<close> tasks. The code returns at once when an error is latched (``no need to restart
  tasks if compilation already failed''): in the failed state below one unit is pending
  and no worker is running, the formula gives 1, and the call spawns nothing and leaves
  the state as it was.
\<close>

theorem RestartBackgroundTasks_counterexample:
  "failed (example_regular\<lparr>compile_error := Some (new_CompilationError 0 example_error),
                            baseline_compilation_units := [example_unit]\<rparr>) \<and>
   RestartBackgroundTasks size_t_max
     (example_regular\<lparr>compile_error := Some (new_CompilationError 0 example_error),
                       baseline_compilation_units := [example_unit]\<rparr>)
   = Inr (example_regular\<lparr>compile_error := Some (new_CompilationError 0 example_error),
                            baseline_compilation_units := [example_unit]\<rparr>) \<and>
   min (unat size_t_max)
     (min (length (baseline_compilation_units
                     (example_regular\<lparr>compile_error := Some (new_CompilationError 0 example_error),
                        baseline_compilation_units := [example_unit]\<rparr>))
           + length (tiering_compilation_units
                     (example_regular\<lparr>compile_error := Some (new_CompilationError 0 example_error),
                        baseline_compilation_units := [example_unit]\<rparr>)))
          (unat (max_background_tasks
                     (example_regular\<lparr>compile_error := Some (new_CompilationError 0 example_error),
                        baseline_compilation_units := [example_unit]\<rparr>))
           - unat (num_background_tasks
                     (example_regular\<lparr>compile_error := Some (new_CompilationError 0 example_error),
                        baseline_compilation_units := [example_unit]\<rparr>)))) = 1"
  by (simp add: RestartBackgroundTasks_def failed_def unat_size_t_max example_regular_def
      new_CompilationStateImpl_def)

text \<open>
  C6 as amended: in a state with \<^verbatim>\<open>num_background_tasks_ <= max_background_tasks_\<close> (and
  pending vectors whose sizes fit \<^verbatim>\<open>size_t\<close>), the call returns, spawns \<open>n\<close> background
  compile tasks and increases \<^verbatim>\<open>num_background_tasks_\<close> by \<open>n\<close>, where \<open>n\<close> is 0 when an
  error is latched and \<open>min(max, pending units, max_workers - running)\<close> otherwise; the
  tasks go to the worker threads when \<^verbatim>\<open>FLAG_wasm_num_compilation_tasks\<close> is positive and
  to the foreground runner otherwise. Every operation that returns keeps
  \<^verbatim>\<open>num_background_tasks_ <= max_background_tasks_\<close>, \<^verbatim>\<open>OnBackgroundTaskStopped\<close> being
  called for a task that was counted (the count is not zero).
\<close>

theorem RestartBackgroundTasks_count_and_bound:
  assumes "num_background_tasks s \<le> max_background_tasks s"
  shows "(length (baseline_compilation_units s) + length (tiering_compilation_units s) < 2 ^ 64
          \<longrightarrow>
          (\<exists>s'. RestartBackgroundTasks m s = Inr s' \<and>
             (let n = (if failed s then 0
                       else min (unat m)
                              (min (length (baseline_compilation_units s)
                                      + length (tiering_compilation_units s))
                                   (unat (max_background_tasks s)
                                      - unat (num_background_tasks s))))
              in unat (num_background_tasks s') = unat (num_background_tasks s) + n \<and>
                 (if 0 < FLAG_wasm_num_compilation_tasks s
                  then worker_tasks s' = worker_tasks s @ replicate n BackgroundCompileTask \<and>
                       foreground_tasks s' = foreground_tasks s
                  else foreground_tasks s' =
                         foreground_tasks s @ replicate n BackgroundCompileTask \<and>
                       worker_tasks s' = worker_tasks s)))) \<and>
         (\<forall>x s'. step x s = Inr s' \<and>
             (x = DoOnBackgroundTaskStopped \<longrightarrow> num_background_tasks s \<noteq> 0) \<longrightarrow>
             num_background_tasks s' \<le> max_background_tasks s')"
  using assms RestartBackgroundTasks_count [of s m] step_keeps_bound [of _ s] by blast

theorem RestartBackgroundTasks_count_and_bound_witness:
  "num_background_tasks (example_regular\<lparr>baseline_compilation_units := [example_unit]\<rparr>)
     \<le> max_background_tasks (example_regular\<lparr>baseline_compilation_units := [example_unit]\<rparr>) \<and>
   (\<exists>s'. RestartBackgroundTasks size_t_max
            (example_regular\<lparr>baseline_compilation_units := [example_unit]\<rparr>) = Inr s' \<and>
         unat (num_background_tasks s') = 1 \<and>
         worker_tasks s' = [BackgroundCompileTask] \<and>
         (\<exists>s''. step DoOnBackgroundTaskStopped s' = Inr s'' \<and>
                num_background_tasks s'' \<le> max_background_tasks s''))"
proof -
  let ?s = "example_regular\<lparr>baseline_compilation_units := [example_unit]\<rparr>"
  have inv: "num_background_tasks ?s \<le> max_background_tasks ?s"
    by (simp add: example_regular_def new_CompilationStateImpl_def)
  have len: "length (baseline_compilation_units ?s) + length (tiering_compilation_units ?s)
               < 2 ^ 64"
    by (simp add: example_regular_def new_CompilationStateImpl_def)
  have n: "(if failed ?s then 0
            else min (unat size_t_max)
                   (min (length (baseline_compilation_units ?s)
                           + length (tiering_compilation_units ?s))
                        (unat (max_background_tasks ?s) - unat (num_background_tasks ?s)))) = 1"
    by (simp add: failed_def unat_size_t_max example_regular_def new_CompilationStateImpl_def)
  have fl: "0 < FLAG_wasm_num_compilation_tasks ?s" "worker_tasks ?s = []"
    "unat (num_background_tasks ?s) = 0"
    by (simp_all add: example_regular_def new_CompilationStateImpl_def)
  from RestartBackgroundTasks_count_and_bound [OF inv, of size_t_max, THEN conjunct1, rule_format, OF len]
  obtain s' where r: "RestartBackgroundTasks size_t_max ?s = Inr s'"
    and num: "unat (num_background_tasks s') = 1"
    and w: "worker_tasks s' = [BackgroundCompileTask]"
    unfolding n Let_def using fl by auto
  from r inv have inv': "num_background_tasks s' \<le> max_background_tasks s'"
    by (rule RestartBackgroundTasks_bounded)
  from num have nz: "num_background_tasks s' \<noteq> 0" by auto
  then have st: "step DoOnBackgroundTaskStopped s'
                 = Inr (s'\<lparr>num_background_tasks := num_background_tasks s' - 1\<rparr>)"
    by (simp add: OnBackgroundTaskStopped_def dcheck_fails_def word_le_nat_alt num)
  from RestartBackgroundTasks_count_and_bound [OF inv', of size_t_max, THEN conjunct2, rule_format, OF conjI, OF st] nz
  have "num_background_tasks (s'\<lparr>num_background_tasks := num_background_tasks s' - 1\<rparr>)
          \<le> max_background_tasks (s'\<lparr>num_background_tasks := num_background_tasks s' - 1\<rparr>)"
    by blast
  with st r num w inv show ?thesis by blast
qed

subsection \<open>C2: final events\<close>

text \<open>
  C2 as stated: in every sequence of delivered events at most one final event is delivered
  and nothing is delivered after it. \<^verbatim>\<open>AddCallback\<close> has no check: a callback added after
  the final event has cleared the callbacks receives the next event. In the run below, in
  regular mode, the first callback receives the baseline and the top-tier event, a second
  callback is added, and the failure notification of a later \<^verbatim>\<open>SetError\<close> is delivered to
  it: both final events are delivered, one after the other.
\<close>

theorem final_events_counterexample:
  "delivered_by example_late_run example_regular =
     Inr [kFinishedBaselineCompilation, kFinishedTopTierCompilation, kFailedCompilation]"
  unfolding example_late_run_def delivered_by_def
  by (simp add: example_steps example_error_failed NotifyOnEvent_def delivered_def Let_def)

text \<open>
  C2 as amended: take any state with nothing notified yet and any sequence of operations
  that returns and adds no callback after a final event has been delivered. Then at most
  one final event is delivered, never both \<^verbatim>\<open>kFinishedTopTierCompilation\<close> and
  \<^verbatim>\<open>kFailedCompilation\<close>; no event is delivered after a final one, so a baseline event
  never follows the top-tier event; and once a final event has been delivered no callback
  is left registered.
\<close>

theorem final_event_is_last_delivered:
  assumes "notified s = []" and "registered_in_time ops s" and "run ops s = Inr s'"
  shows "length (filter is_final_event (delivered s')) \<le> 1 \<and>
         \<not> (kFinishedTopTierCompilation \<in> set (delivered s') \<and>
            kFailedCompilation \<in> set (delivered s')) \<and>
         (\<forall>i j. i < j \<and> j < length (delivered s') \<longrightarrow>
            \<not> is_final_event (delivered s' ! i)) \<and>
         ((\<exists>e\<in>set (delivered s'). is_final_event e) \<longrightarrow> callbacks s' = [])"
proof -
  from assms(1) have i: "delivery_inv s"
    by (simp add: delivery_inv_def delivered_def)
  from assms(3) i assms(2) have "delivery_inv s'" by (rule run_delivery_inv_in_time)
  then have f: "final_is_last (delivered s')"
    and c: "(\<exists>e\<in>set (delivered s'). is_final_event e) \<longrightarrow> callbacks s' = []"
    by (simp_all add: delivery_inv_def)
  from f final_is_last_index [OF f] final_is_last_count [OF f] final_is_last_not_both [OF f] c
  show ?thesis by blast
qed

theorem final_event_is_last_delivered_witness:
  "notified example_regular = [] \<and>
   registered_in_time example_run example_regular \<and>
   (\<exists>s'. run example_run example_regular = Inr s' \<and>
      delivered s' = [kFinishedBaselineCompilation, kFinishedTopTierCompilation] \<and>
      length (filter is_final_event (delivered s')) \<le> 1 \<and>
      callbacks s' = [])"
proof -
  have l: "notified example_regular = []"
    by (simp add: example_regular_fields)
  from example_run_delivers obtain s' where
    s': "run example_run example_regular = Inr s'"
    and d: "delivered s' = [kFinishedBaselineCompilation, kFinishedTopTierCompilation]"
    by (auto simp: delivered_by_def split: sum.splits)
  note main = final_event_is_last_delivered [OF l example_run_in_time s']
  from main have k: "length (filter is_final_event (delivered s')) \<le> 1"
    by (rule conjunct1)
  have "\<exists>e\<in>set (delivered s'). is_final_event e"
    unfolding d by simp
  with main have cb: "callbacks s' = []"
    by (elim conjE impE)
  from s' d k cb
  have e: "\<exists>s'. run example_run example_regular = Inr s' \<and>
      delivered s' = [kFinishedBaselineCompilation, kFinishedTopTierCompilation] \<and>
      length (filter is_final_event (delivered s')) \<le> 1 \<and>
      callbacks s' = []"
    by (intro exI [of _ s'] conjI)
  from l example_run_in_time e show ?thesis by (intro conjI)
qed

end
